theory Spec2Isabelle
  imports
    Complex_Main
    "HOL-Library.Multiset"
    "HOL-Library.Sublist"
    "HOL-Library.AList"
    "HOL-Library.Char_ord"
    "HOL-Library.List_Lexorder"
begin

section \<open>JavaScript numbers\<close>

text \<open>
  Both computation modules (\<^verbatim>\<open>extension/content.js\<close>, below "variant A", and the second
  content script, below "variant B") compute on JavaScript Numbers, the binary64 values of
  IEEE 754. A finite Number is modelled by the rational it denotes, next to the three
  special values; \<open>-0\<close> is identified with \<open>+0\<close> (the two are equal under every
  comparison the code makes, and the code divides only by a loss it has tested with
  \<^verbatim>\<open>> 0\<close> or by a count it has tested to be non-zero). Every arithmetic operation
  rounds its exact result to the nearest double (\<open>round64\<close>), as ECMAScript prescribes.

  Where the two variants define a function of the same name differently
  (\<^verbatim>\<open>parseCurrency\<close>, \<^verbatim>\<open>parseTable\<close>, \<^verbatim>\<open>computeStats\<close>), the name carries the
  variant's letter here.
\<close>

datatype jsnum = Fin rat | PInf | NInf | NaN

subsection \<open>Rounding to the nearest double\<close>

text \<open>
  The number of binary digits of a natural number, and from it the exponent of the
  leading binary digit of a positive rational, \<open>\<lfloor>log\<^sub>2 q\<rfloor>\<close>.
\<close>

fun bitLength :: "nat \<Rightarrow> nat" where
  "bitLength n = (if n = 0 then 0 else Suc (bitLength (n div 2)))"

declare bitLength.simps [simp del]

definition ilog2 :: "rat \<Rightarrow> int" where
  "ilog2 q = (if 1 \<le> q then int (bitLength (nat \<lfloor>q\<rfloor>)) - 1
              else - int (bitLength (nat (\<lceil>1 / q\<rceil> - 1))))"

text \<open>Rounding to the nearest integer, a tie going to the even one.\<close>

definition roundHalfEven :: "rat \<Rightarrow> int" where
  "roundHalfEven x =
     (let f = \<lfloor>x\<rfloor>; d = x - of_int f
      in if d < 1 / 2 then f else if 1 / 2 < d then f + 1 else if even f then f else f + 1)"

text \<open>
  A double has a significand of 53 binary digits, so near \<open>q\<close> the doubles are the
  multiples of \<open>2^e\<close> with \<open>e = \<lfloor>log\<^sub>2 |q|\<rfloor> - 52\<close>, and of \<open>2^-1074\<close> in the
  subnormal range. \<open>round64 q\<close> is "the Number value for \<open>q\<close>" of ECMAScript: the
  nearest such multiple, a tie going to the even significand, and an infinity when that
  multiple reaches \<open>2^1024\<close>.
\<close>

definition ulpExponent :: "rat \<Rightarrow> int" where
  "ulpExponent q = max (ilog2 \<bar>q\<bar> - 52) (- 1074)"

definition round64 :: "rat \<Rightarrow> jsnum" where
  "round64 q =
     (if q = 0 then Fin 0
      else
        let e = ulpExponent q;
            v = of_int (roundHalfEven (q / 2 powi e)) * 2 powi e
        in if 2 ^ 1024 \<le> \<bar>v\<bar> then (if 0 < q then PInf else NInf) else Fin v)"

subsection \<open>Arithmetic and comparisons\<close>

text \<open>The operator \<^verbatim>\<open>+\<close> on Numbers.\<close>

fun jadd :: "jsnum \<Rightarrow> jsnum \<Rightarrow> jsnum" where
  "jadd (Fin a) (Fin b) = round64 (a + b)"
| "jadd (Fin a) PInf = PInf"
| "jadd (Fin a) NInf = NInf"
| "jadd (Fin a) NaN = NaN"
| "jadd PInf (Fin b) = PInf"
| "jadd PInf PInf = PInf"
| "jadd PInf NInf = NaN"
| "jadd PInf NaN = NaN"
| "jadd NInf (Fin b) = NInf"
| "jadd NInf PInf = NaN"
| "jadd NInf NInf = NInf"
| "jadd NInf NaN = NaN"
| "jadd NaN y = NaN"

text \<open>Unary minus, binary \<^verbatim>\<open>-\<close>, \<^verbatim>\<open>Math.abs\<close>, \<^verbatim>\<open>*\<close> and \<^verbatim>\<open>/\<close>.\<close>

fun jneg :: "jsnum \<Rightarrow> jsnum" where
  "jneg (Fin a) = Fin (- a)"
| "jneg PInf = NInf"
| "jneg NInf = PInf"
| "jneg NaN = NaN"

definition jsub :: "jsnum \<Rightarrow> jsnum \<Rightarrow> jsnum" where
  "jsub a b = jadd a (jneg b)"

fun jabs :: "jsnum \<Rightarrow> jsnum" where
  "jabs (Fin a) = Fin \<bar>a\<bar>"
| "jabs PInf = PInf"
| "jabs NInf = PInf"
| "jabs NaN = NaN"

fun jmul :: "jsnum \<Rightarrow> jsnum \<Rightarrow> jsnum" where
  "jmul (Fin a) (Fin b) = round64 (a * b)"
| "jmul (Fin a) PInf = (if a = 0 then NaN else if 0 < a then PInf else NInf)"
| "jmul (Fin a) NInf = (if a = 0 then NaN else if 0 < a then NInf else PInf)"
| "jmul (Fin a) NaN = NaN"
| "jmul PInf (Fin b) = (if b = 0 then NaN else if 0 < b then PInf else NInf)"
| "jmul PInf PInf = PInf"
| "jmul PInf NInf = NInf"
| "jmul PInf NaN = NaN"
| "jmul NInf (Fin b) = (if b = 0 then NaN else if 0 < b then NInf else PInf)"
| "jmul NInf PInf = NInf"
| "jmul NInf NInf = PInf"
| "jmul NInf NaN = NaN"
| "jmul NaN y = NaN"

fun jdiv :: "jsnum \<Rightarrow> jsnum \<Rightarrow> jsnum" where
  "jdiv (Fin a) (Fin b) =
     (if b = 0 then (if a = 0 then NaN else if 0 < a then PInf else NInf)
      else round64 (a / b))"
| "jdiv (Fin a) PInf = Fin 0"
| "jdiv (Fin a) NInf = Fin 0"
| "jdiv (Fin a) NaN = NaN"
| "jdiv PInf (Fin b) = (if 0 \<le> b then PInf else NInf)"
| "jdiv PInf PInf = NaN"
| "jdiv PInf NInf = NaN"
| "jdiv PInf NaN = NaN"
| "jdiv NInf (Fin b) = (if 0 \<le> b then NInf else PInf)"
| "jdiv NInf PInf = NaN"
| "jdiv NInf NInf = NaN"
| "jdiv NInf NaN = NaN"
| "jdiv NaN y = NaN"

text \<open>The comparisons \<^verbatim>\<open>a < b\<close> and \<^verbatim>\<open>a > b\<close>: false as soon as one side is NaN.\<close>

fun jlt :: "jsnum \<Rightarrow> jsnum \<Rightarrow> bool" where
  "jlt (Fin a) (Fin b) = (a < b)"
| "jlt (Fin a) PInf = True"
| "jlt (Fin a) NInf = False"
| "jlt (Fin a) NaN = False"
| "jlt PInf y = False"
| "jlt NInf (Fin b) = True"
| "jlt NInf PInf = True"
| "jlt NInf NInf = False"
| "jlt NInf NaN = False"
| "jlt NaN y = False"

definition jgt :: "jsnum \<Rightarrow> jsnum \<Rightarrow> bool" where
  "jgt a b = jlt b a"

text \<open>
  \<^verbatim>\<open>isNaN\<close>, the truthiness of a Number (\<^verbatim>\<open>x || y\<close> takes \<open>y\<close> when \<open>x\<close> is
  \<open>0\<close> or NaN), and a finite value.
\<close>

definition isNaN :: "jsnum \<Rightarrow> bool" where
  "isNaN n = (n = NaN)"

definition truthy :: "jsnum \<Rightarrow> bool" where
  "truthy n = (\<not> (n = Fin 0 \<or> n = NaN))"


text \<open>
  \<^verbatim>\<open>Math.min(...xs)\<close> and \<^verbatim>\<open>Math.max(...xs)\<close>: NaN when an argument is NaN,
  \<open>+Infinity\<close> and \<open>-Infinity\<close> on no argument. (The engine's limit on the number of
  spread arguments is not modelled.)
\<close>

definition mathMin :: "jsnum list \<Rightarrow> jsnum" where
  "mathMin xs = (if NaN \<in> set xs then NaN else foldl (\<lambda>m x. if jlt x m then x else m) PInf xs)"

definition mathMax :: "jsnum list \<Rightarrow> jsnum" where
  "mathMax xs = (if NaN \<in> set xs then NaN else foldl (\<lambda>m x. if jlt m x then x else m) NInf xs)"

section \<open>JavaScript strings\<close>

text \<open>
  A string is a list of code units; \<^typ>\<open>char\<close> holds the code units below 256. White space
  is what \<^verbatim>\<open>String.prototype.trim\<close>, \<^verbatim>\<open>parseFloat\<close> and the regular expression
  class \<^verbatim>\<open>\s\<close> agree on (WhiteSpace and LineTerminator), in that range: TAB, LF, VT, FF,
  CR, SP and NBSP.
\<close>

definition isWhiteSpace :: "char \<Rightarrow> bool" where
  "isWhiteSpace c =
     (c \<in> set [CHR 0x09, CHR 0x0A, CHR 0x0B, CHR 0x0C, CHR 0x0D, CHR 0x20, CHR 0xA0])"

definition trimStart :: "string \<Rightarrow> string" where
  "trimStart s = dropWhile isWhiteSpace s"

definition trim :: "string \<Rightarrow> string" where
  "trim s = rev (dropWhile isWhiteSpace (rev (dropWhile isWhiteSpace s)))"

subsection \<open>parseFloat\<close>

text \<open>
  \<^verbatim>\<open>parseFloat(s)\<close> skips leading white space and reads the longest prefix that is a
  StrDecimalLiteral: an optional sign, then \<^verbatim>\<open>Infinity\<close> or decimal digits with an
  optional fraction and an optional exponent (an exponent counts only with at least one
  digit). With no such prefix the result is NaN. The result is the Number value for the
  mathematical value of the literal, that is, the literal's value rounded to the nearest
  double. (For a literal of more than 20 significant digits ECMAScript lets an engine
  round from the first 20 digits; here the rounding is always from the full value.)
\<close>

definition isDigit :: "char \<Rightarrow> bool" where
  "isDigit c = (c \<in> set ''0123456789'')"

definition digitVal :: "char \<Rightarrow> nat" where
  "digitVal c = of_char c - 48"

definition digitsVal :: "string \<Rightarrow> nat" where
  "digitsVal ds = foldl (\<lambda>n c. 10 * n + digitVal c) 0 ds"

definition exponentPart :: "string \<Rightarrow> int" where
  "exponentPart s =
     (case s of
        [] \<Rightarrow> 0
      | c # t \<Rightarrow>
          if c = CHR ''e'' \<or> c = CHR ''E'' then
            (case t of
               [] \<Rightarrow> 0
             | d # u \<Rightarrow>
                 if d = CHR ''-'' then - int (digitsVal (takeWhile isDigit u))
                 else if d = CHR ''+'' then int (digitsVal (takeWhile isDigit u))
                 else int (digitsVal (takeWhile isDigit t)))
          else 0)"

text \<open>The mathematical value of the digits \<open>m\<close> with \<open>k\<close> fraction digits and exponent \<open>e\<close>.\<close>

definition decimalValue :: "nat \<Rightarrow> nat \<Rightarrow> int \<Rightarrow> rat" where
  "decimalValue m k e =
     (if 0 \<le> e then of_nat m * 10 ^ nat e / 10 ^ k else of_nat m / (10 ^ k * 10 ^ nat (- e)))"

definition strUnsignedDecimalLiteral :: "string \<Rightarrow> jsnum" where
  "strUnsignedDecimalLiteral s =
     (if prefix ''Infinity'' s then PInf
      else
        let ip = takeWhile isDigit s; r = dropWhile isDigit s in
        (case r of
           [] \<Rightarrow> if ip = [] then NaN else round64 (decimalValue (digitsVal ip) 0 0)
         | c # t \<Rightarrow>
             if c = CHR ''.'' then
               (let fp = takeWhile isDigit t in
                if ip = [] \<and> fp = [] then NaN
                else round64 (decimalValue (digitsVal (ip @ fp)) (length fp)
                                (exponentPart (dropWhile isDigit t))))
             else if ip = [] then NaN
             else round64 (decimalValue (digitsVal ip) 0 (exponentPart r))))"

definition parseFloat :: "string \<Rightarrow> jsnum" where
  "parseFloat s =
     (case trimStart s of
        [] \<Rightarrow> NaN
      | c # t \<Rightarrow>
          if c = CHR ''-'' then jneg (strUnsignedDecimalLiteral t)
          else if c = CHR ''+'' then strUnsignedDecimalLiteral t
          else strUnsignedDecimalLiteral (c # t))"

section \<open>Field parsers\<close>

text \<open>
  Variant A:
  \<^verbatim>\<open>if (!s || typeof s !== 'string') return 0;
  const cleaned = s.replace(/[$,]/g, '').trim();
  const n = parseFloat(cleaned);
  return isNaN(n) ? 0 : n;\<close>
  The argument is always the string \<^verbatim>\<open>getCellText\<close> returns; the empty string is falsy.
\<close>

definition parseCurrencyA :: "string \<Rightarrow> jsnum" where
  "parseCurrencyA s =
     (if s = [] then Fin 0
      else
        let cleaned = trim (filter (\<lambda>c. \<not> (c = CHR ''$'' \<or> c = CHR '','')) s);
            n = parseFloat cleaned
        in if isNaN n then Fin 0 else n)"

text \<open>
  Variant B:
  \<^verbatim>\<open>if (!s || typeof s !== 'string') return 0;
  const trimmed = s.trim();
  const cleaned = trimmed.replace(/[$,]/g, '').replace(/\s/g, '');
  const n = parseFloat(cleaned);
  if (isNaN(n)) return 0;
  if (trimmed.indexOf('(') !== -1) return -Math.abs(n);
  return n;\<close>
\<close>

definition parseCurrencyB :: "string \<Rightarrow> jsnum" where
  "parseCurrencyB s =
     (if s = [] then Fin 0
      else
        let trimmed = trim s;
            cleaned = filter (\<lambda>c. \<not> isWhiteSpace c)
                        (filter (\<lambda>c. \<not> (c = CHR ''$'' \<or> c = CHR '','')) trimmed);
            n = parseFloat cleaned
        in if isNaN n then Fin 0
           else if CHR ''('' \<in> set trimmed then jneg (jabs n)
           else n)"

text \<open>
  \<^verbatim>\<open>parsePct\<close> (variant A); \<^verbatim>\<open>s.replace('%', '')\<close> with a string pattern removes the
  first occurrence only.
\<close>

definition parsePct :: "string \<Rightarrow> jsnum" where
  "parsePct s =
     (if s = [] then Fin 0
      else
        let n = parseFloat (trim (remove1 (CHR ''%'') s))
        in if isNaN n then Fin 0 else n)"

text \<open>
  \<^verbatim>\<open>parseDate\<close>: \<^verbatim>\<open>new Date(s)\<close> reads formats that depend on the engine, so the time
  value it yields (milliseconds since the epoch; \<open>None\<close> for an invalid date) is the
  parameter \<open>dateParse\<close>. \<^verbatim>\<open>getDay()\<close> is the week day of the local time,
  \<open>(Day(t + offset) + 4) mod 7\<close>; the offset of the host's time zone is the parameter
  \<open>tza\<close>.
\<close>

definition parseDate :: "(string \<Rightarrow> int option) \<Rightarrow> string \<Rightarrow> int option" where
  "parseDate dateParse s = (if s = [] then None else dateParse s)"

definition getDay :: "(int \<Rightarrow> int) \<Rightarrow> int \<Rightarrow> nat" where
  "getDay tza t = nat (((t + tza t) div 86400000 + 4) mod 7)"

definition DAYS :: "string list" where
  "DAYS = [''Sun'', ''Mon'', ''Tue'', ''Wed'', ''Thu'', ''Fri'', ''Sat'']"

section \<open>Row normalizer\<close>

text \<open>
  A table row as the normalizer reads it: the \<^verbatim>\<open>td\<close> cells with their
  \<^verbatim>\<open>data-label\<close> and text, in document order (\<^verbatim>\<open>querySelector\<close> takes the first
  match), and the text of the \<^verbatim>\<open>.symbol-badge\<close> and \<^verbatim>\<open>.win-badge\<close> elements when the
  row has them.
\<close>

record tableRow =
  cells :: "(string \<times> string) list"
  symbolBadge :: "string option"
  winBadge :: "string option"

definition getCellText :: "tableRow \<Rightarrow> string \<Rightarrow> string" where
  "getCellText row dataLabel =
     (case map_of (cells row) dataLabel of None \<Rightarrow> [] | Some t \<Rightarrow> trim t)"

text \<open>
  The fields the records of both variants share, and the fields of each variant. The
  grouping functions read the shared fields only, so they are defined once, on every
  extension of \<open>trade\<close>.
\<close>

record trade =
  date :: "int option"
  dateStr :: string
  symbol :: string
  netPnl :: jsnum
  dayOfWeek :: "nat option"
  dayName :: string

record tradeA = trade +
  winPct :: jsnum
  avgWin :: jsnum
  avgLoss :: jsnum

record tradeB = trade +
  grossPnl :: jsnum
  commission :: jsnum
  pnlHigh :: jsnum
  pnlLow :: jsnum

definition rowSymbol :: "tableRow \<Rightarrow> string" where
  "rowSymbol tr = (case symbolBadge tr of Some t \<Rightarrow> trim t | None \<Rightarrow> getCellText tr ''Symbol'')"

definition rowDayOfWeek :: "(int \<Rightarrow> int) \<Rightarrow> int option \<Rightarrow> nat option" where
  "rowDayOfWeek tza d = (case d of None \<Rightarrow> None | Some t \<Rightarrow> Some (getDay tza t))"

definition rowDayName :: "(int \<Rightarrow> int) \<Rightarrow> int option \<Rightarrow> string" where
  "rowDayName tza d = (case d of None \<Rightarrow> [] | Some t \<Rightarrow> DAYS ! getDay tza t)"

text \<open>The record variant A builds from one row (the body of \<^verbatim>\<open>rows.map\<close>).\<close>

definition recordA :: "(string \<Rightarrow> int option) \<Rightarrow> (int \<Rightarrow> int) \<Rightarrow> tableRow \<Rightarrow> tradeA" where
  "recordA dateParse tza tr =
     (let netPnlText = getCellText tr ''Net PnL'';
          dateText = getCellText tr ''Date'';
          d = parseDate dateParse dateText;
          winPctText = (case winBadge tr of Some t \<Rightarrow> trim t | None \<Rightarrow> getCellText tr ''Win %'')
      in \<lparr> date = d, dateStr = dateText, symbol = rowSymbol tr,
           netPnl = parseCurrencyA netPnlText,
           dayOfWeek = rowDayOfWeek tza d, dayName = rowDayName tza d,
           winPct = parsePct winPctText,
           avgWin = parseCurrencyA (getCellText tr ''Avg Win''),
           avgLoss = parseCurrencyA (getCellText tr ''Avg Loss'') \<rparr>)"

text \<open>The record variant B builds from one row.\<close>

definition recordB :: "(string \<Rightarrow> int option) \<Rightarrow> (int \<Rightarrow> int) \<Rightarrow> tableRow \<Rightarrow> tradeB" where
  "recordB dateParse tza tr =
     (let netPnlText = getCellText tr ''Net PnL'';
          net = parseCurrencyB netPnlText;
          dateText = getCellText tr ''Date'';
          d = parseDate dateParse dateText;
          comm = parseCurrencyB (getCellText tr ''Commission'')
      in \<lparr> date = d, dateStr = dateText, symbol = rowSymbol tr,
           netPnl = net,
           dayOfWeek = rowDayOfWeek tza d, dayName = rowDayName tza d,
           grossPnl = jadd net comm, commission = comm,
           pnlHigh = parseCurrencyB (getCellText tr ''PnL High''),
           pnlLow = parseCurrencyB (getCellText tr ''PnL Low'') \<rparr>)"

text \<open>
  \<^verbatim>\<open>rows.map(...).filter((r) => r.symbol && r.dateStr)\<close>: a string is truthy when it is
  not empty.
\<close>

definition kept :: "'a trade_scheme \<Rightarrow> bool" where
  "kept r = (symbol r \<noteq> [] \<and> dateStr r \<noteq> [])"

definition parseTableA :: "(string \<Rightarrow> int option) \<Rightarrow> (int \<Rightarrow> int) \<Rightarrow> tableRow list \<Rightarrow> tradeA list" where
  "parseTableA dateParse tza rows = filter kept (map (recordA dateParse tza) rows)"

definition parseTableB :: "(string \<Rightarrow> int option) \<Rightarrow> (int \<Rightarrow> int) \<Rightarrow> tableRow list \<Rightarrow> tradeB list" where
  "parseTableB dateParse tza rows = filter kept (map (recordB dateParse tza) rows)"

section \<open>Objects used as maps\<close>

text \<open>
  The grouping code keeps its buckets in an object literal \<^verbatim>\<open>{}\<close>. Its own properties
  are an association list in insertion order. The object inherits from
  \<^verbatim>\<open>Object.prototype\<close>: reading one of the names below that is not an own property
  yields the inherited value, which is truthy and has no \<^verbatim>\<open>push\<close>, so calling
  \<^verbatim>\<open>push\<close> on it throws a \<^verbatim>\<open>TypeError\<close>.
\<close>

datatype error = TypeError

type_synonym 'r buckets = "(string \<times> 'r list) list"

definition objectPrototypeKeys :: "string list" where
  "objectPrototypeKeys =
     [''constructor'', ''__defineGetter__'', ''__defineSetter__'', ''hasOwnProperty'',
      ''__lookupGetter__'', ''__lookupSetter__'', ''isPrototypeOf'',
      ''propertyIsEnumerable'', ''toString'', ''valueOf'', ''__proto__'',
      ''toLocaleString'']"

text \<open>\<^verbatim>\<open>if (!obj[k]) obj[k] = []; obj[k].push(r);\<close>\<close>

definition createAndPush :: "string \<Rightarrow> 'r \<Rightarrow> 'r buckets \<Rightarrow> error + 'r buckets" where
  "createAndPush k r obj =
     (case map_of obj k of
        Some bucket \<Rightarrow> Inr (AList.update k (bucket @ [r]) obj)
      | None \<Rightarrow>
          if k \<in> set objectPrototypeKeys then Inl TypeError
          else Inr (obj @ [(k, [r])]))"

text \<open>\<^verbatim>\<open>if (k && obj[k]) obj[k].push(r);\<close>\<close>

definition pushIfPresent :: "string \<Rightarrow> 'r \<Rightarrow> 'r buckets \<Rightarrow> error + 'r buckets" where
  "pushIfPresent k r obj =
     (if k = [] then Inr obj
      else
        (case map_of obj k of
           Some bucket \<Rightarrow> Inr (AList.update k (bucket @ [r]) obj)
         | None \<Rightarrow> if k \<in> set objectPrototypeKeys then Inl TypeError else Inr obj))"

text \<open>
  \<^verbatim>\<open>rows.forEach(step)\<close> on an object the steps update; an exception ends the loop.
\<close>

fun forEachRow :: "('r \<Rightarrow> 'o \<Rightarrow> error + 'o) \<Rightarrow> 'r list \<Rightarrow> 'o \<Rightarrow> error + 'o" where
  "forEachRow step [] obj = Inr obj"
| "forEachRow step (r # rs) obj =
     (case step r obj of Inl e \<Rightarrow> Inl e | Inr obj' \<Rightarrow> forEachRow step rs obj')"

text \<open>
  \<^verbatim>\<open>Object.keys(obj)\<close>: the own keys that are array indices (canonical decimal numerals
  below \<open>2^32 - 1 = 4294967295\<close>) in ascending numeric order, then the other keys in
  insertion order.
\<close>

definition isArrayIndex :: "string \<Rightarrow> bool" where
  "isArrayIndex k =
     (k \<noteq> [] \<and> list_all isDigit k \<and> (k = ''0'' \<or> hd k \<noteq> CHR ''0'') \<and>
      digitsVal k < 4294967295)"

definition objectKeys :: "'r buckets \<Rightarrow> string list" where
  "objectKeys obj =
     sort_key digitsVal (filter isArrayIndex (map fst obj)) @
     filter (\<lambda>k. \<not> isArrayIndex k) (map fst obj)"

definition bucketAt :: "'r buckets \<Rightarrow> string \<Rightarrow> 'r list" where
  "bucketAt obj k = (case map_of obj k of Some bucket \<Rightarrow> bucket | None \<Rightarrow> [])"

section \<open>Grouping engine\<close>

text \<open>
  The same two functions in both variants:
  \<^verbatim>\<open>const bySymbol = {};
  rows.forEach((r) => {
    if (!bySymbol[r.symbol]) bySymbol[r.symbol] = [];
    bySymbol[r.symbol].push(r);
  });
  return bySymbol;\<close>
  and
  \<^verbatim>\<open>const byDay = {};
  DAYS.forEach((d) => { byDay[d] = []; });
  rows.forEach((r) => {
    if (r.dayName && byDay[r.dayName]) byDay[r.dayName].push(r);
  });
  return byDay;\<close>
\<close>

definition groupBySymbol :: "('a trade_scheme) list \<Rightarrow> error + ('a trade_scheme) buckets" where
  "groupBySymbol rows = forEachRow (\<lambda>r. createAndPush (symbol r) r) rows []"

definition groupByDayOfWeek :: "('a trade_scheme) list \<Rightarrow> error + ('a trade_scheme) buckets" where
  "groupByDayOfWeek rows =
     forEachRow (\<lambda>r. pushIfPresent (dayName r) r) rows (map (\<lambda>d. (d, [])) DAYS)"

text \<open>\<^verbatim>\<open>const symbols = Object.keys(bySymbol).sort();\<close> (in \<^verbatim>\<open>renderPanel\<close>).\<close>

definition symbols :: "'r buckets \<Rightarrow> string list" where
  "symbols bySymbol = sort (objectKeys bySymbol)"

section \<open>Statistics aggregator\<close>

text \<open>
  A count (\<^verbatim>\<open>xs.length\<close>) used as a Number. An array has fewer than \<open>2^32\<close>
  elements, and every such count is a double.
\<close>

definition num :: "nat \<Rightarrow> jsnum" where
  "num n = Fin (of_nat n)"

subsection \<open>Variant A\<close>

text \<open>
  The summary of variant A. Three of its fields bear the names of record fields in the
  source (\<^verbatim>\<open>netPnl\<close>, \<^verbatim>\<open>avgWin\<close>, \<^verbatim>\<open>avgLoss\<close>), and \<^verbatim>\<open>profitFactor\<close>,
  \<^verbatim>\<open>netPnl\<close> and \<^verbatim>\<open>expectancy\<close> are in the summaries of both variants; these fields
  carry the variant's letter here.
\<close>

record statsA =
  totalTrades :: nat
  winningTrades :: nat
  losingTrades :: nat
  winRate :: jsnum
  grossProfit :: jsnum
  grossLoss :: jsnum
  profitFactorA :: jsnum
  netPnlA :: jsnum
  expectancyA :: jsnum
  avgWinA :: jsnum
  avgLossA :: jsnum
  largestWin :: jsnum
  largestLoss :: jsnum
  avgWinPct :: jsnum

definition emptyStatsA :: statsA where
  "emptyStatsA =
     \<lparr> totalTrades = 0, winningTrades = 0, losingTrades = 0, winRate = Fin 0,
       grossProfit = Fin 0, grossLoss = Fin 0, profitFactorA = Fin 0, netPnlA = Fin 0,
       expectancyA = Fin 0, avgWinA = Fin 0, avgLossA = Fin 0, largestWin = Fin 0,
       largestLoss = Fin 0, avgWinPct = Fin 0 \<rparr>"

text \<open>\<^verbatim>\<open>xs.reduce((s, r) => s + f(r), 0)\<close>\<close>

definition reduceSum :: "('r \<Rightarrow> jsnum) \<Rightarrow> 'r list \<Rightarrow> jsnum" where
  "reduceSum f xs = foldl (\<lambda>s r. jadd s (f r)) (Fin 0) xs"

text \<open>
  \<^verbatim>\<open>grossLoss > 0 ? grossProfit / grossLoss : (grossProfit > 0 ? 999 : 0)\<close>, the same
  expression in both variants.
\<close>

definition profitFactorOf :: "jsnum \<Rightarrow> jsnum \<Rightarrow> jsnum" where
  "profitFactorOf profit loss =
     (if jgt loss (Fin 0) then jdiv profit loss
      else if jgt profit (Fin 0) then Fin 999 else Fin 0)"

text \<open>\<^verbatim>\<open>(rate / 100) * avgWin - (1 - rate / 100) * avgLoss\<close>\<close>

definition expectancyOf :: "jsnum \<Rightarrow> jsnum \<Rightarrow> jsnum \<Rightarrow> jsnum" where
  "expectancyOf rate win loss =
     jsub (jmul (jdiv rate (Fin 100)) win)
          (jmul (jsub (Fin 1) (jdiv rate (Fin 100))) loss)"

definition computeStatsA :: "tradeA list \<Rightarrow> statsA" where
  "computeStatsA rows =
     (if rows = [] then emptyStatsA
      else
        let wins = filter (\<lambda>r. jgt (netPnl r) (Fin 0)) rows;
            losses = filter (\<lambda>r. jlt (netPnl r) (Fin 0)) rows;
            grossProfit' = reduceSum netPnl wins;
            grossLoss' = jabs (reduceSum netPnl losses);
            netPnl' = reduceSum netPnl rows;
            profitFactor' = profitFactorOf grossProfit' grossLoss';
            winRate' = (if rows \<noteq> [] then jmul (jdiv (num (length wins)) (num (length rows))) (Fin 100)
                        else Fin 0);
            avgWin' = (if wins \<noteq> [] then jdiv (reduceSum netPnl wins) (num (length wins)) else Fin 0);
            avgLoss' = (if losses \<noteq> [] then jdiv (reduceSum (\<lambda>r. jabs (netPnl r)) losses) (num (length losses))
                        else Fin 0);
            expectancy' = (if rows \<noteq> [] then expectancyOf winRate' avgWin' avgLoss' else Fin 0);
            largestWin' = (if wins \<noteq> [] then mathMax (map netPnl wins) else Fin 0);
            largestLoss' = (if losses \<noteq> [] then mathMin (map netPnl losses) else Fin 0);
            winPcts = filter (\<lambda>p. jgt p (Fin 0)) (map winPct rows);
            avgWinPct' = (if winPcts \<noteq> [] then jdiv (reduceSum (\<lambda>b. b) winPcts) (num (length winPcts))
                          else Fin 0)
        in \<lparr> totalTrades = length rows, winningTrades = length wins,
             losingTrades = length losses, winRate = winRate',
             grossProfit = grossProfit', grossLoss = grossLoss',
             profitFactorA = profitFactor', netPnlA = netPnl', expectancyA = expectancy',
             avgWinA = avgWin', avgLossA = avgLoss', largestWin = largestWin',
             largestLoss = largestLoss', avgWinPct = avgWinPct' \<rparr>)"

subsection \<open>Variant B\<close>

record statsB =
  profitableDays :: nat
  losingDays :: nat
  dayWinRatePct :: jsnum
  grossPnlB :: jsnum
  totalCommission :: jsnum
  profitFactorB :: jsnum
  netPnlB :: jsnum
  expectancyB :: jsnum
  worstDayNet :: jsnum
  worstIntradayLow :: jsnum

definition emptyStatsB :: statsB where
  "emptyStatsB =
     \<lparr> profitableDays = 0, losingDays = 0, dayWinRatePct = Fin 0, grossPnlB = Fin 0,
       totalCommission = Fin 0, profitFactorB = Fin 0, netPnlB = Fin 0,
       expectancyB = Fin 0, worstDayNet = Fin 0, worstIntradayLow = Fin 0 \<rparr>"

text \<open>
  \<^verbatim>\<open>const key = r.dateStr || (r.date ? r.date.toISOString().slice(0, 10) : '');\<close>
  The text \<^verbatim>\<open>toISOString\<close> gives for a time value is the parameter \<open>toISO\<close>.
\<close>

definition dateKey :: "(int \<Rightarrow> string) \<Rightarrow> 'a trade_scheme \<Rightarrow> string" where
  "dateKey toISO r =
     (if dateStr r \<noteq> [] then dateStr r
      else (case date r of Some t \<Rightarrow> take 10 (toISO t) | None \<Rightarrow> []))"

text \<open>
  \<^verbatim>\<open>if (!key) return; if (!byDate[key]) byDate[key] = []; byDate[key].push(r);\<close>
\<close>

definition byDateStep :: "(int \<Rightarrow> string) \<Rightarrow> tradeB \<Rightarrow> tradeB buckets \<Rightarrow> error + tradeB buckets" where
  "byDateStep toISO r byDate =
     (if dateKey toISO r = [] then Inr byDate else createAndPush (dateKey toISO r) r byDate)"

text \<open>\<^verbatim>\<open>r.grossPnl || r.netPnl + (r.commission || 0)\<close>\<close>

definition rowGross :: "tradeB \<Rightarrow> jsnum" where
  "rowGross r =
     (if truthy (grossPnl r) then grossPnl r
      else jadd (netPnl r) (if truthy (commission r) then commission r else Fin 0))"

text \<open>An entry of \<^verbatim>\<open>dateTotals\<close>: \<^verbatim>\<open>{ date, netPnl, grossPnl }\<close>.\<close>

record dateTotal =
  totalDate :: string
  totalNetPnl :: jsnum
  totalGrossPnl :: jsnum

definition dateTotalsOf :: "tradeB buckets \<Rightarrow> dateTotal list" where
  "dateTotalsOf byDate =
     map (\<lambda>key. \<lparr> totalDate = key,
                  totalNetPnl = reduceSum netPnl (bucketAt byDate key),
                  totalGrossPnl = reduceSum rowGross (bucketAt byDate key) \<rparr>)
         (objectKeys byDate)"

text \<open>
  The body of \<^verbatim>\<open>computeStats\<close> after \<^verbatim>\<open>byDate\<close> is built. (\<^verbatim>\<open>netProfit\<close>,
  \<^verbatim>\<open>netLoss\<close> are computed in the source and never read; they are left out.)
\<close>

definition statsOfDays :: "tradeB list \<Rightarrow> tradeB buckets \<Rightarrow> statsB" where
  "statsOfDays rows byDate =
     (let dateTotals = dateTotalsOf byDate;
          profitableDays' = length (filter (\<lambda>d. jgt (totalNetPnl d) (Fin 0)) dateTotals);
          losingDays' = length (filter (\<lambda>d. jlt (totalNetPnl d) (Fin 0)) dateTotals);
          totalTradingDays = length dateTotals;
          dayWinRatePct' = (if totalTradingDays \<noteq> 0
                            then jmul (jdiv (num profitableDays') (num totalTradingDays)) (Fin 100)
                            else Fin 0);
          grossProfitFromDays =
            reduceSum totalGrossPnl (filter (\<lambda>d. jgt (totalGrossPnl d) (Fin 0)) dateTotals);
          grossLossFromDays =
            jabs (reduceSum totalGrossPnl (filter (\<lambda>d. jlt (totalGrossPnl d) (Fin 0)) dateTotals));
          profitFactor' = profitFactorOf grossProfitFromDays grossLossFromDays;
          profitable = filter (\<lambda>r. jgt (netPnl r) (Fin 0)) rows;
          losing = filter (\<lambda>r. jlt (netPnl r) (Fin 0)) rows;
          netPnl' = reduceSum netPnl rows;
          totalCommission' =
            reduceSum (\<lambda>r. if truthy (commission r) then commission r else Fin 0) rows;
          grossProfit' = reduceSum grossPnl (filter (\<lambda>r. jgt (grossPnl r) (Fin 0)) rows);
          grossLoss' = jabs (reduceSum grossPnl (filter (\<lambda>r. jlt (grossPnl r) (Fin 0)) rows));
          grossPnl' = jsub grossProfit' grossLoss';
          avgWinPerDay = (if profitable \<noteq> []
                          then jdiv (reduceSum netPnl profitable) (num (length profitable))
                          else Fin 0);
          avgLossPerDay = (if losing \<noteq> []
                           then jdiv (reduceSum (\<lambda>r. jabs (netPnl r)) losing) (num (length losing))
                           else Fin 0);
          expectancy' = expectancyOf dayWinRatePct' avgWinPerDay avgLossPerDay;
          worstDayNet' = (if losing \<noteq> [] then mathMin (map netPnl losing) else Fin 0);
          pnlLows = filter (\<lambda>v. \<not> isNaN v) (map pnlLow rows);
          worstIntradayLow' = (if pnlLows \<noteq> [] then mathMin pnlLows
                               else (if losing \<noteq> [] then worstDayNet' else Fin 0))
      in \<lparr> profitableDays = profitableDays', losingDays = losingDays',
           dayWinRatePct = dayWinRatePct', grossPnlB = grossPnl',
           totalCommission = totalCommission', profitFactorB = profitFactor',
           netPnlB = netPnl', expectancyB = expectancy', worstDayNet = worstDayNet',
           worstIntradayLow = worstIntradayLow' \<rparr>)"

definition computeStatsB :: "(int \<Rightarrow> string) \<Rightarrow> tradeB list \<Rightarrow> error + statsB" where
  "computeStatsB toISO rows =
     (if rows = [] then Inr emptyStatsB
      else
        (case forEachRow (byDateStep toISO) rows [] of
           Inl e \<Rightarrow> Inl e
         | Inr byDate \<Rightarrow> Inr (statsOfDays rows byDate)))"

section \<open>Notions of the specification\<close>

text \<open>
  The quantities the specification names, written from its words, to compare the
  aggregator with. A sum of Numbers is taken in binary64, from 0 and in list order.
\<close>

definition numberSum :: "jsnum list \<Rightarrow> jsnum" where
  "numberSum xs = foldl jadd (Fin 0) xs"




text \<open>
  The rational a finite Number denotes and its magnitude; a whole number; and a list of
  whole numbers whose magnitudes total at most \<open>2^53 = 9007199254740992\<close>. On such a
  list no addition rounds.
\<close>

definition amount :: "jsnum \<Rightarrow> rat" where
  "amount x = (case x of Fin q \<Rightarrow> q | PInf \<Rightarrow> 0 | NInf \<Rightarrow> 0 | NaN \<Rightarrow> 0)"

definition magnitude :: "jsnum \<Rightarrow> rat" where
  "magnitude x = \<bar>amount x\<bar>"

definition wholeNumber :: "jsnum \<Rightarrow> bool" where
  "wholeNumber x =
     (case x of Fin q \<Rightarrow> of_int \<lfloor>q\<rfloor> = q | PInf \<Rightarrow> False | NInf \<Rightarrow> False | NaN \<Rightarrow> False)"

definition wholeAmounts :: "jsnum list \<Rightarrow> bool" where
  "wholeAmounts xs =
     (list_all wholeNumber xs \<and> sum_list (map magnitude xs) \<le> 9007199254740992)"

text \<open>
  A trading day of a record list is one of its distinct date labels. The days are listed
  in the order in which JavaScript enumerates them as property names: the labels that
  are array indices in ascending numeric order, then the other labels in the order of
  their first appearance. The records of a day, and the day's net and gross totals; the
  gross P&L of a record is its net P&L with the commission added back.
\<close>

definition firstOccurrences :: "'a list \<Rightarrow> 'a list" where
  "firstOccurrences xs = rev (remdups (rev xs))"






text \<open>
  Records as the data model has them: with a date label; and, in variant B, with a
  commission that is a number and a gross P&L that is the net P&L plus the commission.
  Every record the normalizer keeps is such a record (\<open>parseTableB_labelled\<close>,
  \<open>parseTableB_derivedGross\<close>).
\<close>

definition labelled :: "'a trade_scheme \<Rightarrow> bool" where
  "labelled r = (dateStr r \<noteq> [])"

definition derivedGross :: "tradeB \<Rightarrow> bool" where
  "derivedGross r = (commission r \<noteq> NaN \<and> grossPnl r = jadd (netPnl r) (commission r))"

text \<open>
  No record of the list is filed under the name of a property every object inherits.
  Variant B returns a summary for exactly these lists (\<open>computeStatsB_returns\<close>,
  \<open>computeStatsB_throws\<close>).
\<close>

definition ownDateKeys :: "(int \<Rightarrow> string) \<Rightarrow> 'a trade_scheme list \<Rightarrow> bool" where
  "ownDateKeys toISO rows =
     list_all (\<lambda>r. dateKey toISO r \<notin> set objectPrototypeKeys) rows"


text \<open>
  A record whose weekday label is derived from its date, as the data model has it:
  the label of \<^verbatim>\<open>getDay()\<close> for a parsed date, the empty string otherwise.
\<close>

definition derivedDay :: "(int \<Rightarrow> int) \<Rightarrow> 'a trade_scheme \<Rightarrow> bool" where
  "derivedDay tza r = (dayName r = rowDayName tza (date r))"





section \<open>Notions of the proofs\<close>

text \<open>The double a non-zero rational is rounded to, before the test for overflow.\<close>

definition rounded :: "rat \<Rightarrow> rat" where
  "rounded q = of_int (roundHalfEven (q / 2 powi ulpExponent q)) * 2 powi ulpExponent q"

text \<open>A finite Number of magnitude at most \<open>2^j\<close>.\<close>

definition bounded :: "int \<Rightarrow> jsnum \<Rightarrow> bool" where
  "bounded j x =
     (case x of Fin r \<Rightarrow> \<bar>r\<bar> \<le> 2 powi j | PInf \<Rightarrow> False | NInf \<Rightarrow> False | NaN \<Rightarrow> False)"

text \<open>
  The buckets hold, under each key, the records seen so far with that key, in order, and
  no key twice.
\<close>

definition filed :: "('r \<Rightarrow> string) \<Rightarrow> 'r list \<Rightarrow> 'r buckets \<Rightarrow> bool" where
  "filed key seen obj =
     (distinct (map fst obj) \<and>
      (\<forall>k. map_of obj k =
             (if filter (\<lambda>r. key r = k) seen = [] then None
              else Some (filter (\<lambda>r. key r = k) seen))))"

section \<open>Sample inputs\<close>

text \<open>
  A host in UTC whose \<^verbatim>\<open>Date\<close> reads two ISO dates (2 January 2024, a Tuesday, and
  3 January 2024, a Wednesday), and table rows with the cells the normalizers read.
\<close>

definition sampleDateParse :: "string \<Rightarrow> int option" where
  "sampleDateParse s =
     (if s = ''2024-01-02'' then Some 1704153600000
      else if s = ''2024-01-03'' then Some 1704240000000
      else None)"

definition sampleTza :: "int \<Rightarrow> int" where
  "sampleTza t = 0"

definition sampleISO :: "int \<Rightarrow> string" where
  "sampleISO t =
     (if t = 1704153600000 then ''2024-01-02T00:00:00.000Z''
      else ''2024-01-03T00:00:00.000Z'')"

definition sampleRow :: "string \<Rightarrow> string \<Rightarrow> string \<Rightarrow> tableRow" where
  "sampleRow d sy net =
     \<lparr> cells = [(''Date'', d), (''Symbol'', sy), (''Net PnL'', net), (''Win %'', ''60%''),
                (''Commission'', ''$0.00''), (''PnL Low'', ''-$5.00'')],
       symbolBadge = None, winBadge = None \<rparr>"

text \<open>
  A table of four rows: a winning Tuesday, a losing Wednesday (its date cell padded with
  a blank), a row whose date the host cannot read, and a row with a blank symbol.
\<close>

definition sampleTable :: "tableRow list" where
  "sampleTable =
     [sampleRow ''2024-01-02'' ''AAA'' ''$50.00'',
      sampleRow '' 2024-01-03'' ''BBB'' ''-$20.00'',
      sampleRow ''soon'' ''AAA'' ''n/a'',
      sampleRow ''2024-01-03'' '' '' ''$1.00'']"



text \<open>
  A row whose symbol, and a row whose date cell, is the name of a property every object
  inherits.
\<close>

definition sampleInherited :: "tableRow list" where
  "sampleInherited = [sampleRow ''2024-01-02'' ''constructor'' ''$50.00'']"




text \<open>Two rows whose net P&L cells read \<^verbatim>\<open>Infinity\<close> and \<^verbatim>\<open>-Infinity\<close>.\<close>

definition sampleInfinite :: "tableRow list" where
  "sampleInfinite =
     [sampleRow ''2024-01-02'' ''AAA'' ''Infinity'', sampleRow ''2024-01-03'' ''AAA'' ''-Infinity'']"


text \<open>
  Net P&L cells of \<open>10^16\<close>, 1 and 1 dollars, and of 10 and 20 cents.
\<close>

definition sampleLarge :: "tableRow list" where
  "sampleLarge =
     [sampleRow ''2024-01-02'' ''AAA'' ''$10000000000000000'',
      sampleRow ''2024-01-02'' ''AAA'' ''$1'',
      sampleRow ''2024-01-03'' ''AAA'' ''$1'']"

definition sampleCents :: "tableRow list" where
  "sampleCents =
     [sampleRow ''2024-01-02'' ''AAA'' ''$0.10'', sampleRow ''2024-01-03'' ''AAA'' ''$0.20'']"




section \<open>Rounding: facts\<close>

text \<open>The exponent of the leading binary digit.\<close>

lemma bitLength_0 [simp]: "bitLength 0 = 0"
  by (simp add: bitLength.simps)

lemma bitLength_pos: "0 < n \<Longrightarrow> bitLength n = Suc (bitLength (n div 2))"
  by (subst bitLength.simps) simp

lemma bitLength_bounds: "0 < n \<Longrightarrow> 2 ^ (bitLength n - 1) \<le> n \<and> n < 2 ^ bitLength n"
proof (induction n rule: bitLength.induct)
  case (1 n)
  show ?case
  proof (cases "n div 2 = 0")
    case True
    with 1(2) have "n = 1" by (simp add: div_eq_0_iff) 
    then show ?thesis by (simp add: bitLength_pos)
  next
    case False
    then have p: "0 < n div 2" by simp
    from 1(1)[OF _ p] 1(2) have IH: "2 ^ (bitLength (n div 2) - 1) \<le> n div 2"
      "n div 2 < 2 ^ bitLength (n div 2)" by simp_all
    have bl: "bitLength n = Suc (bitLength (n div 2))" using 1(2) by (rule bitLength_pos)
    have b1: "bitLength (n div 2) = Suc (bitLength (n div 2) - 1)"
      using p by (simp add: bitLength_pos)
    have "2 ^ (bitLength n - 1) = 2 * 2 ^ (bitLength (n div 2) - 1)"
      unfolding bl using b1 by (metis diff_Suc_1 power_Suc)
    also have "\<dots> \<le> 2 * (n div 2)" using IH(1) by simp
    also have "\<dots> \<le> n" by simp
    finally have lo: "2 ^ (bitLength n - 1) \<le> n" .
    have "n < 2 * (n div 2) + 2" by presburger
    also have "\<dots> \<le> 2 * 2 ^ bitLength (n div 2)" using IH(2) by simp
    finally have "n < 2 ^ bitLength n" unfolding bl by simp
    with lo show ?thesis by simp
  qed
qed

lemma ilog2_bounds:
  assumes "0 < q"
  shows "2 powi ilog2 q \<le> q" and "q < 2 powi (ilog2 q + 1)"
proof -
  have "2 powi ilog2 q \<le> q \<and> q < 2 powi (ilog2 q + 1)"
  proof (cases "1 \<le> q")
    case True
    define n where "n = nat \<lfloor>q\<rfloor>"
    from True have n: "0 < n" by (simp add: n_def)
    have fl: "0 \<le> \<lfloor>q\<rfloor>" using True by simp
    have nn: "(of_nat n::rat) = of_int \<lfloor>q\<rfloor>"
      unfolding n_def using fl by (metis of_nat_nat)
    have nq: "of_nat n \<le> q" "q < of_nat n + 1"
      unfolding nn using floor_correct[of q] by simp_all
    from bitLength_bounds[OF n] have b: "2 ^ (bitLength n - 1) \<le> n" "n < 2 ^ bitLength n"
      by simp_all
    have bp: "0 < bitLength n" using n by (simp add: bitLength_pos)
    have il: "ilog2 q = int (bitLength n) - 1" using True by (simp add: ilog2_def n_def)
    have e1: "(2::rat) powi (int (bitLength n) - 1) = 2 ^ (bitLength n - 1)"
      using bp by (simp add: power_int_def of_nat_diff nat_diff_distrib)
    have e2: "(2::rat) powi (int (bitLength n) - 1 + 1) = 2 ^ bitLength n"
      by (simp add: power_int_def)
    have "(2::rat) ^ (bitLength n - 1) \<le> of_nat n"
      using b(1) by (metis of_nat_le_iff of_nat_numeral of_nat_power)
    from this nq(1) have lo: "(2::rat) ^ (bitLength n - 1) \<le> q" by (rule order_trans)
    have "n + 1 \<le> 2 ^ bitLength n" using b(2) by simp
    then have "(of_nat (n + 1) :: rat) \<le> 2 ^ bitLength n"
      by (metis of_nat_le_iff of_nat_numeral of_nat_power)
    with nq(2) have hi: "q < 2 ^ bitLength n" by linarith
    show ?thesis unfolding il e1 e2 using lo hi by simp
  next
    case False
    define r where "r = 1 / q"
    define m where "m = nat (\<lceil>r\<rceil> - 1)"
    from False assms have r1: "1 < r" by (simp add: r_def)
    then have c2: "2 \<le> \<lceil>r\<rceil>" by (simp add: le_ceiling_iff)
    then have m: "0 < m" by (simp add: m_def)
    have mr: "of_nat m < r" "r \<le> of_nat m + 1"
    proof -
      have "of_int (\<lceil>r\<rceil> - 1) < r" by (simp add: ceiling_correct)
      moreover have "(of_nat m::rat) = of_int (\<lceil>r\<rceil> - 1)" using c2 by (simp add: m_def)
      ultimately show "of_nat m < r" by simp
      have "r \<le> of_int \<lceil>r\<rceil>" by simp
      moreover have "(of_nat m::rat) + 1 = of_int \<lceil>r\<rceil>" using c2 by (simp add: m_def)
      ultimately show "r \<le> of_nat m + 1" by simp
    qed
    from bitLength_bounds[OF m] have b: "2 ^ (bitLength m - 1) \<le> m" "m < 2 ^ bitLength m"
      by simp_all
    have bp: "0 < bitLength m" using m by (simp add: bitLength_pos)
    have il: "ilog2 q = - int (bitLength m)" using False by (simp add: ilog2_def m_def r_def)
    have "(2::rat) ^ (bitLength m - 1) \<le> of_nat m"
      using b(1) by (metis of_nat_le_iff of_nat_numeral of_nat_power)
    from this mr(1) have lo: "(2::rat) ^ (bitLength m - 1) < r" by (rule le_less_trans)
    have "m + 1 \<le> 2 ^ bitLength m" using b(2) by simp
    then have "(of_nat (m + 1) :: rat) \<le> 2 ^ bitLength m"
      by (metis of_nat_le_iff of_nat_numeral of_nat_power)
    with mr(2) have hi: "r \<le> 2 ^ bitLength m" by linarith
    have e1: "(2::rat) powi (- int (bitLength m)) = 1 / 2 ^ bitLength m"
      by (simp add: power_int_def field_simps)
    have e2: "(2::rat) powi (- int (bitLength m) + 1) = 1 / 2 ^ (bitLength m - 1)"
      using bp by (simp add: power_int_def field_simps nat_diff_distrib)
    have q: "q = 1 / r" by (simp add: r_def)
    have "1 / 2 ^ bitLength m \<le> 1 / r" using hi r1 by (simp add: frac_le)
    then have qlo: "1 / 2 ^ bitLength m \<le> q" by (simp only: q)
    have "1 / r < 1 / 2 ^ (bitLength m - 1)"
      using lo by (simp add: frac_less2)
    then have qhi: "q < 1 / 2 ^ (bitLength m - 1)" by (simp only: q)
    show ?thesis unfolding il e1 e2 using qlo qhi by simp
  qed
  then show "2 powi ilog2 q \<le> q" and "q < 2 powi (ilog2 q + 1)" by simp_all
qed

lemma powi2_le_iff: "(2::rat) powi a \<le> 2 powi b \<longleftrightarrow> a \<le> b"
proof
  assume l: "(2::rat) powi a \<le> 2 powi b"
  show "a \<le> b"
  proof (rule ccontr)
    assume "\<not> a \<le> b"
    then have "b < a" by simp
    then have "(2::rat) powi b < 2 powi a" by (rule power_int_strict_increasing) simp
    with l show False by simp
  qed
next
  assume "a \<le> b"
  then show "(2::rat) powi a \<le> 2 powi b" by (rule power_int_increasing) simp
qed

lemma powi2_less_iff: "(2::rat) powi a < 2 powi b \<longleftrightarrow> a < b"
  using powi2_le_iff[of b a] by (simp add: not_le[symmetric])

lemma ilog2_less: "0 < q \<Longrightarrow> q < 2 powi k \<Longrightarrow> ilog2 q < k"
  using ilog2_bounds(1)[of q] powi2_less_iff[of "ilog2 q" k] by linarith

lemma ilog2_ge: "0 < q \<Longrightarrow> 2 powi k \<le> q \<Longrightarrow> k \<le> ilog2 q"
  using ilog2_bounds(2)[of q] powi2_less_iff[of k "ilog2 q + 1"] by linarith

lemma ilog2_eq: "2 powi k \<le> q \<Longrightarrow> q < 2 powi (k + 1) \<Longrightarrow> ilog2 q = k"
proof -
  assume a: "2 powi k \<le> q" "q < 2 powi (k + 1)"
  have "(0::rat) < 2 powi k" by simp
  with a have "0 < q" by linarith
  from ilog2_less[OF this a(2)] ilog2_ge[OF this a(1)] show ?thesis by simp
qed


text \<open>Rounding to the nearest integer.\<close>

lemma roundHalfEven_of_int [simp]: "roundHalfEven (of_int m) = m"
  by (simp add: roundHalfEven_def)

lemma roundHalfEven_ge: "of_int K \<le> x \<Longrightarrow> K \<le> roundHalfEven x"
proof -
  assume "of_int K \<le> x"
  then have "K \<le> \<lfloor>x\<rfloor>" by (simp add: le_floor_iff)
  moreover have "\<lfloor>x\<rfloor> \<le> roundHalfEven x" by (simp add: roundHalfEven_def Let_def)
  ultimately show ?thesis by simp
qed

lemma roundHalfEven_le: "x \<le> of_int K \<Longrightarrow> roundHalfEven x \<le> K"
proof (cases "x = of_int K")
  case True
  then show ?thesis by simp
next
  case False
  assume "x \<le> of_int K"
  with False have "x < of_int K" by simp
  then have "\<lfloor>x\<rfloor> < K" by (simp add: floor_less_iff)
  moreover have "roundHalfEven x \<le> \<lfloor>x\<rfloor> + 1" by (simp add: roundHalfEven_def Let_def)
  ultimately show ?thesis by simp
qed

lemma roundHalfEven_nearest:
  assumes "\<bar>x - of_int m\<bar> * 2 < 1 \<or> \<bar>x - of_int m\<bar> * 2 = 1 \<and> even m"
  shows "roundHalfEven x = m"
proof -
  from assms have c: "\<lfloor>x\<rfloor> = m \<or> \<lfloor>x\<rfloor> = m - 1"
  proof -
    from assms have a: "\<bar>x - of_int m\<bar> * 2 \<le> 1" by auto
    from a have b: "x - of_int m \<le> 1 / 2" "- (x - of_int m) \<le> 1 / 2"
      by (auto simp: abs_if split: if_splits)
    from b have "of_int m - 1 \<le> x" by linarith
    moreover from b have "x < of_int m + 1" by linarith
    ultimately have "of_int (m - 1) \<le> x" "x < of_int (m + 1)" by simp_all
    then have "m - 1 \<le> \<lfloor>x\<rfloor>" "\<lfloor>x\<rfloor> < m + 1"
      by (simp_all only: le_floor_iff floor_less_iff)
    then show ?thesis by auto
  qed
  then show ?thesis
  proof
    assume f: "\<lfloor>x\<rfloor> = m"
    then have g: "of_int m \<le> x" by (metis of_int_floor_le)
    with assms have "x - of_int m < 1 / 2 \<or> x - of_int m = 1 / 2 \<and> even m" by auto
    then show ?thesis by (auto simp: roundHalfEven_def Let_def f)
  next
    assume f: "\<lfloor>x\<rfloor> = m - 1"
    then have g: "x < of_int m" by (metis floor_less_iff less_add_one diff_add_cancel)
    with assms have h: "of_int m - x < 1 / 2 \<or> of_int m - x = 1 / 2 \<and> even m" by auto
    have d: "x - of_int (m - 1) = 1 - (of_int m - x)" by simp
    from h show ?thesis
      by (auto simp: roundHalfEven_def Let_def f d)
  qed
qed

lemma round64_rounded:
  "round64 q =
     (if q = 0 then Fin 0
      else if 2 ^ 1024 \<le> \<bar>rounded q\<bar> then (if 0 < q then PInf else NInf) else Fin (rounded q))"
  by (simp add: round64_def rounded_def Let_def)

lemma powi2_pos [simp]: "(0::rat) < 2 powi e"
  by simp

lemma powi2_nat: "0 \<le> d \<Longrightarrow> (2::rat) powi d = of_int (2 ^ nat d)"
  by (simp add: power_int_def)

lemma powi2_split: "(2::rat) powi a = 2 powi (a - b) * 2 powi b"
  by (simp flip: power_int_add)

lemma ulpExponent_le:
  assumes "q \<noteq> 0" and "\<bar>q\<bar> < 2 powi (j + 53)" and "- 1074 \<le> j"
  shows "ulpExponent q \<le> j"
proof -
  from assms(1) have "0 < \<bar>q\<bar>" by simp
  from ilog2_less[OF this assms(2)] assms(3) show ?thesis
    by (simp add: ulpExponent_def)
qed


lemma rounded_grid:
  assumes "q = of_int n * 2 powi k" and "ulpExponent q \<le> k"
  shows "rounded q = q"
proof -
  define e where "e = ulpExponent q"
  have "q / 2 powi e = of_int n * 2 powi (k - e)"
    unfolding assms(1) using powi2_split[of k e] by simp
  also have "\<dots> = of_int (n * 2 ^ nat (k - e))"
    using assms(2) by (simp add: e_def powi2_nat)
  finally have "roundHalfEven (q / 2 powi e) = roundHalfEven (of_int (n * 2 ^ nat (k - e)))"
    by (rule arg_cong)
  then have "roundHalfEven (q / 2 powi e) = n * 2 ^ nat (k - e)"
    by (simp only: roundHalfEven_of_int)
  then have "rounded q = of_int (n * 2 ^ nat (k - e)) * 2 powi e"
    by (simp add: rounded_def e_def)
  also have "\<dots> = of_int n * (2 powi (k - e) * 2 powi e)"
    using assms(2) by (simp add: e_def powi2_nat)
  also have "\<dots> = q" unfolding assms(1) using powi2_split[of k e] by simp
  finally show ?thesis .
qed

text \<open>A number of the form \<open>n * 2^k\<close> with \<open>|n| < 2^53\<close> in the exponent range is a double.\<close>

lemma round64_grid:
  assumes "\<bar>n\<bar> < 2 ^ 53" and "- 1074 \<le> k" and "k \<le> 971"
  shows "round64 (of_int n * 2 powi k) = Fin (of_int n * 2 powi k)"
proof (cases "n = 0")
  case True
  then show ?thesis by (simp add: round64_def)
next
  case False
  define q :: rat where "q = of_int n * 2 powi k"
  from False have q0: "q \<noteq> 0" by (simp add: q_def)
  have "\<bar>rat_of_int n\<bar> < 2 ^ 53" using assms(1) by (metis of_int_abs of_int_less_iff of_int_numeral of_int_power)
  then have "\<bar>q\<bar> < 2 ^ 53 * 2 powi k"
    by (simp add: q_def abs_mult)
  also have "\<dots> = 2 powi (k + 53)" by (simp add: power_int_add)
  finally have lt: "\<bar>q\<bar> < 2 powi (k + 53)" .
  have e: "ulpExponent q \<le> k" by (rule ulpExponent_le[OF q0 lt assms(2)])
  have r: "rounded q = q" by (rule rounded_grid[OF q_def e])
  have "k + 53 \<le> 1024" using assms(3) by linarith
  then have "(2::rat) powi (k + 53) \<le> 2 powi 1024" by (simp only: powi2_le_iff)
  with lt have "\<bar>q\<bar> < 2 powi 1024" by (rule less_le_trans)
  then have "\<bar>q\<bar> < 2 ^ 1024" by simp
  then show ?thesis
    unfolding q_def[symmetric] round64_rounded r using q0 by simp
qed

lemma round64_int:
  assumes "\<bar>n\<bar> \<le> 2 ^ 53"
  shows "round64 (of_int n) = Fin (of_int n)"
proof (cases "\<bar>n\<bar> = 2 ^ 53")
  case True
  then have "n = 2 ^ 53 \<or> n = - (2 ^ 53)" by linarith
  then show ?thesis
    using round64_grid[of 1 53] round64_grid[of "- 1" 53] by auto
next
  case False
  with assms have "\<bar>n\<bar> < 2 ^ 53" by simp
  from round64_grid[OF this, of 0] show ?thesis by simp
qed


lemma rounded_abs_ge:
  assumes "q \<noteq> 0" and "2 powi j \<le> \<bar>q\<bar>" and "- 1074 \<le> j"
  shows "2 powi j \<le> \<bar>rounded q\<bar>"
proof -
  define e where "e = ulpExponent q"
  from assms(1) have qp: "0 < \<bar>q\<bar>" by simp
  have ar: "\<bar>rounded q\<bar> = of_int \<bar>roundHalfEven (q / 2 powi e)\<bar> * 2 powi e"
    by (simp add: rounded_def e_def abs_mult)
  have ge: "of_int K \<le> \<bar>q\<bar> / 2 powi e \<Longrightarrow> 0 \<le> K \<Longrightarrow> K \<le> \<bar>roundHalfEven (q / 2 powi e)\<bar>" for K
  proof (cases "0 \<le> q")
    case True
    assume "of_int K \<le> \<bar>q\<bar> / 2 powi e"
    with True have "of_int K \<le> q / 2 powi e" by simp
    from roundHalfEven_ge[OF this] show ?thesis by simp
  next
    case False
    assume "of_int K \<le> \<bar>q\<bar> / 2 powi e"
    with False have "q / 2 powi e \<le> of_int (- K)" by (simp add: field_simps)
    from roundHalfEven_le[OF this] show ?thesis by simp
  qed
  show ?thesis
  proof (cases "e \<le> j")
    case True
    have "of_int (2 ^ nat (j - e)) = (2::rat) powi (j - e)" using True by (simp add: powi2_nat)
    also have "\<dots> = 2 powi j / 2 powi e" using powi2_split[of j e] by simp
    also have "\<dots> \<le> \<bar>q\<bar> / 2 powi e" using assms(2) by (simp add: divide_right_mono)
    finally have "2 ^ nat (j - e) \<le> \<bar>roundHalfEven (q / 2 powi e)\<bar>" by (rule ge) simp
    then have "(of_int (2 ^ nat (j - e)) :: rat) \<le> of_int \<bar>roundHalfEven (q / 2 powi e)\<bar>"
      by (simp only: of_int_le_iff)
    then have "(2::rat) powi (j - e) * 2 powi e \<le> of_int \<bar>roundHalfEven (q / 2 powi e)\<bar> * 2 powi e"
      using True by (simp add: powi2_nat)
    then show ?thesis unfolding ar using powi2_split[of j e] by simp
  next
    case False
    with assms(3) have e: "e = ilog2 \<bar>q\<bar> - 52" by (simp add: e_def ulpExponent_def)
    have "of_int (2 ^ 52) = (2::rat) powi (ilog2 \<bar>q\<bar> - e)" by (simp add: e)
    also have "\<dots> = 2 powi ilog2 \<bar>q\<bar> / 2 powi e" using powi2_split[of "ilog2 \<bar>q\<bar>" e] by simp
    also have "\<dots> \<le> \<bar>q\<bar> / 2 powi e" using ilog2_bounds(1)[OF qp] by (simp add: divide_right_mono)
    finally have "2 ^ 52 \<le> \<bar>roundHalfEven (q / 2 powi e)\<bar>" by (rule ge) simp
    then have "(of_int (2 ^ 52) :: rat) \<le> of_int \<bar>roundHalfEven (q / 2 powi e)\<bar>"
      by (simp only: of_int_le_iff)
    then have "(of_int (2 ^ 52) :: rat) * 2 powi e \<le> of_int \<bar>roundHalfEven (q / 2 powi e)\<bar> * 2 powi e"
      by (rule mult_right_mono) simp
    moreover have "(of_int (2 ^ 52) :: rat) * 2 powi e = 2 powi (52 + e)"
      by (simp add: power_int_add)
    moreover have "j \<le> 52 + e" using False by linarith
    then have "(2::rat) powi j \<le> 2 powi (52 + e)" by (simp only: powi2_le_iff)
    ultimately show ?thesis unfolding ar by linarith
  qed
qed

text \<open>A magnitude of \<open>2^1024\<close> or more overflows.\<close>

lemma round64_overflow:
  assumes "2 ^ 1024 \<le> \<bar>q\<bar>"
  shows "round64 q = (if 0 < q then PInf else NInf)"
proof -
  have "(0::rat) < 2 ^ 1024" by simp
  with assms have q0: "q \<noteq> 0" by linarith
  from assms have "2 powi 1024 \<le> \<bar>q\<bar>" by simp
  from rounded_abs_ge[OF q0 this] have "2 ^ 1024 \<le> \<bar>rounded q\<bar>" by simp
  with q0 show ?thesis by (simp add: round64_rounded)
qed


text \<open>The double nearest to a rational, from its exponent and significand.\<close>

lemma round64_nearest:
  assumes "q \<noteq> 0"
    and "e = - 1074 \<and> \<bar>q\<bar> < 2 powi (- 1022) \<or>
         - 1074 \<le> e \<and> 2 powi (e + 52) \<le> \<bar>q\<bar> \<and> \<bar>q\<bar> < 2 powi (e + 53)"
    and "\<bar>q - of_int m * 2 powi e\<bar> * 2 < 2 powi e \<or>
         \<bar>q - of_int m * 2 powi e\<bar> * 2 = 2 powi e \<and> even m"
    and "\<bar>rat_of_int m * 2 powi e\<bar> < 2 ^ 1024"
  shows "round64 q = Fin (of_int m * 2 powi e)"
proof -
  from assms(1) have qp: "0 < \<bar>q\<bar>" by simp
  have e: "ulpExponent q = e"
    using assms(2)
  proof (elim disjE conjE)
    assume "e = - 1074" "\<bar>q\<bar> < 2 powi (- 1022)"
    with ilog2_less[OF qp, of "- 1022"] show ?thesis by (simp add: ulpExponent_def)
  next
    assume "- 1074 \<le> e" "2 powi (e + 52) \<le> \<bar>q\<bar>" "\<bar>q\<bar> < 2 powi (e + 53)"
    with ilog2_eq[of "e + 52" "\<bar>q\<bar>"] show ?thesis by (simp add: ulpExponent_def add.commute)
  qed
  have "q / 2 powi e - of_int m = (q - of_int m * 2 powi e) / 2 powi e"
    by (simp add: field_simps)
  then have "\<bar>q / 2 powi e - of_int m\<bar> = \<bar>q - of_int m * 2 powi e\<bar> / 2 powi e"
    by (simp only: abs_divide) simp
  with assms(3) have "\<bar>q / 2 powi e - of_int m\<bar> * 2 < 1 \<or>
      \<bar>q / 2 powi e - of_int m\<bar> * 2 = 1 \<and> even m"
    by (auto simp: field_simps)
  from roundHalfEven_nearest[OF this] have "rounded q = of_int m * 2 powi e"
    by (simp add: rounded_def e)
  with assms(1,4) show ?thesis by (simp add: round64_rounded)
qed


text \<open>
  Numbers that are doubles: the whole numbers up to \<open>2^53\<close>, and some values the
  sample inputs meet, each with the exponent and the significand of its nearest double.
\<close>

lemma round64_0 [simp]: "round64 0 = Fin 0"
  by (simp add: round64_def)

lemma round64_1 [simp]: "round64 1 = Fin 1"
  using round64_int[of 1] by simp

lemma round64_neg_1 [simp]: "round64 (- 1) = Fin (- 1)"
  using round64_int[of "- 1"] by simp

lemma round64_numeral [simp]:
  "numeral w \<le> (9007199254740992::int) \<Longrightarrow> round64 (numeral w) = Fin (numeral w)"
  using round64_int[of "numeral w"] by simp

lemma round64_neg_numeral [simp]:
  "numeral w \<le> (9007199254740992::int) \<Longrightarrow> round64 (- numeral w) = Fin (- numeral w)"
  using round64_int[of "- numeral w"] by simp

lemma round64_half [simp]: "round64 (1 / 2) = Fin (1 / 2)"
  using round64_grid[of 1 "- 1"] by (simp add: power_int_minus)

lemma round64_1e16 [simp]: "round64 10000000000000000 = Fin 10000000000000000"
  using round64_grid[of 152587890625 16] by simp

lemma round64_neg_1e16 [simp]: "round64 (- 10000000000000000) = Fin (- 10000000000000000)"
  using round64_grid[of "- 152587890625" 16] by simp

lemma round64_1e16_1 [simp]: "round64 10000000000000001 = Fin 10000000000000000"
  using round64_nearest[of 10000000000000001 1 5000000000000000] by simp

lemma round64_tenth [simp]: "round64 (1 / 10) = Fin (3602879701896397 / 36028797018963968)"
  using round64_nearest[of "1 / 10" "- 56" 7205759403792794]
  by (simp add: power_int_minus)

lemma round64_fifth [simp]: "round64 (1 / 5) = Fin (3602879701896397 / 18014398509481984)"
  using round64_nearest[of "1 / 5" "- 55" 7205759403792794]
  by (simp add: power_int_minus)

lemma round64_three_tenths: "round64 (3 / 10) = Fin (5404319552844595 / 18014398509481984)"
  using round64_nearest[of "3 / 10" "- 54" 5404319552844595]
  by (simp add: power_int_minus)

lemma round64_tenth_fifth [simp]:
  "round64 (10808639105689191 / 36028797018963968) = Fin (1351079888211149 / 4503599627370496)"
  using round64_nearest[of "10808639105689191 / 36028797018963968" "- 54" 5404319552844596]
  by (simp add: power_int_minus)

lemma round64_1234_56: "round64 1234.56 = Fin (2714826150374277 / 2199023255552)"
  using round64_nearest[of "1234.56" "- 42" 5429652300748554]
  by (simp add: power_int_minus)

lemma round64_123_45:
  "round64 123.45 = Fin (8687021468732621 / 70368744177664)"
  "round64 (- 123.45) = Fin (- (8687021468732621 / 70368744177664))"
  using round64_nearest[of "123.45" "- 46" 8687021468732621]
    round64_nearest[of "- 123.45" "- 46" "- 8687021468732621"]
  by (simp_all add: power_int_minus)

lemma round64_1e309 [simp]:
  "round64 1000000000000000000000000000000000000000000000000000000000000000000000000000000000000000000000000000000000000000000000000000000000000000000000000000000000000000000000000000000000000000000000000000000000000000000000000000000000000000000000000000000000000000000000000000000000000000000000000000000000000000000000 = PInf"
  using round64_overflow[of "10 ^ 309"] by simp

section \<open>Facts about numbers and parsers\<close>

lemmas parse_defs = trim_def isWhiteSpace_def parseFloat_def trimStart_def
  strUnsignedDecimalLiteral_def isDigit_def digitsVal_def digitVal_def decimalValue_def
  exponentPart_def isNaN_def Let_def

text \<open>Rounding yields a number: \<^verbatim>\<open>parseFloat\<close> is NaN only without a literal.\<close>

lemma round64_not_NaN [simp]: "round64 q \<noteq> NaN"
  by (simp add: round64_def Let_def)

text \<open>No parser returns NaN: an unreadable text degrades to \<open>0\<close>.\<close>

lemma parseCurrencyA_not_NaN: "parseCurrencyA s \<noteq> NaN"
  by (simp add: parseCurrencyA_def isNaN_def Let_def)

lemma jneg_jabs_not_NaN: "n \<noteq> NaN \<Longrightarrow> jneg (jabs n) \<noteq> NaN"
  by (cases n) simp_all

lemma parseCurrencyB_not_NaN: "parseCurrencyB s \<noteq> NaN"
  by (simp add: parseCurrencyB_def isNaN_def Let_def jneg_jabs_not_NaN)

lemma parsePct_not_NaN: "parsePct s \<noteq> NaN"
  by (simp add: parsePct_def isNaN_def Let_def)

text \<open>
  Claim C1. The currency parser maps \<^verbatim>\<open>"$1,234.56"\<close> to 1234.56 (the Number that
  literal denotes, the double nearest to it, \<open>round64_1234_56\<close>), the empty string and \<^verbatim>\<open>"garbage"\<close> to 0, and never
  yields NaN (\<open>parseCurrencyA_not_NaN\<close>, \<open>parseCurrencyB_not_NaN\<close>). The
  parenthesized \<^verbatim>\<open>"(123.45)"\<close>, which variant B is to read as -123.45, comes out as 0
  in variant B as in variant A: \<^verbatim>\<open>parseFloat\<close> finds no number at the opening
  parenthesis, and \<^verbatim>\<open>if (isNaN(n)) return 0\<close> returns before the test for a
  parenthesis is reached. That test negates only a text whose number comes before the
  parenthesis, such as \<^verbatim>\<open>"123.45 (dr)"\<close>.
\<close>

theorem parseCurrency_scenarios:
  "parseCurrencyA ''$1,234.56'' = round64 1234.56 \<and>
   parseCurrencyB ''$1,234.56'' = round64 1234.56 \<and>
   parseCurrencyA [] = Fin 0 \<and> parseCurrencyB [] = Fin 0 \<and>
   parseCurrencyA ''garbage'' = Fin 0 \<and> parseCurrencyB ''garbage'' = Fin 0 \<and>
   parseCurrencyB ''(123.45)'' = Fin 0 \<and> parseCurrencyA ''(123.45)'' = Fin 0 \<and>
   parseCurrencyB ''123.45 (dr)'' = round64 (- 123.45)"
  using round64_123_45 by (simp add: parseCurrencyA_def parseCurrencyB_def parse_defs)

section \<open>The sample table, normalized\<close>

lemmas table_defs = sampleTable_def sampleRow_def recordA_def recordB_def getCellText_def
  rowSymbol_def rowDayOfWeek_def rowDayName_def parseDate_def sampleDateParse_def sampleTza_def
  getDay_def DAYS_def kept_def parseCurrencyA_def parseCurrencyB_def parsePct_def parse_defs

lemma sampleTable_A:
  "parseTableA sampleDateParse sampleTza sampleTable =
     [\<lparr> date = Some 1704153600000, dateStr = ''2024-01-02'', symbol = ''AAA'',
        netPnl = Fin 50, dayOfWeek = Some 2, dayName = ''Tue'', winPct = Fin 60,
        avgWin = Fin 0, avgLoss = Fin 0 \<rparr>,
      \<lparr> date = Some 1704240000000, dateStr = ''2024-01-03'', symbol = ''BBB'',
        netPnl = Fin (- 20), dayOfWeek = Some 3, dayName = ''Wed'', winPct = Fin 60,
        avgWin = Fin 0, avgLoss = Fin 0 \<rparr>,
      \<lparr> date = None, dateStr = ''soon'', symbol = ''AAA'', netPnl = Fin 0,
        dayOfWeek = None, dayName = [], winPct = Fin 60, avgWin = Fin 0,
        avgLoss = Fin 0 \<rparr>]"
  by (simp add: parseTableA_def table_defs)

lemma sampleTable_B:
  "parseTableB sampleDateParse sampleTza sampleTable =
     [\<lparr> date = Some 1704153600000, dateStr = ''2024-01-02'', symbol = ''AAA'',
        netPnl = Fin 50, dayOfWeek = Some 2, dayName = ''Tue'', grossPnl = Fin 50,
        commission = Fin 0, pnlHigh = Fin 0, pnlLow = Fin (- 5) \<rparr>,
      \<lparr> date = Some 1704240000000, dateStr = ''2024-01-03'', symbol = ''BBB'',
        netPnl = Fin (- 20), dayOfWeek = Some 3, dayName = ''Wed'', grossPnl = Fin (- 20),
        commission = Fin 0, pnlHigh = Fin 0, pnlLow = Fin (- 5) \<rparr>,
      \<lparr> date = None, dateStr = ''soon'', symbol = ''AAA'', netPnl = Fin 0,
        dayOfWeek = None, dayName = [], grossPnl = Fin 0, commission = Fin 0,
        pnlHigh = Fin 0, pnlLow = Fin (- 5) \<rparr>]"
  by (simp add: parseTableB_def table_defs)


section \<open>Sums\<close>

text \<open>\<^verbatim>\<open>reduce\<close> adds the values of the fields in list order, from 0.\<close>

lemma reduceSum_numberSum: "reduceSum f xs = numberSum (map f xs)"
  by (simp add: reduceSum_def numberSum_def foldl_map)

text \<open>
  On whole numbers whose magnitudes total at most \<open>2^53\<close> no addition rounds: the sum
  is the exact sum, and so is the sum of any part of the list.
\<close>

lemma wholeNumberE: "wholeNumber x \<Longrightarrow> \<exists>n. x = Fin (of_int n)"
  by (cases x) (auto simp: wholeNumber_def)


lemma magnitude_nonneg [simp]: "0 \<le> magnitude x"
  by (simp add: magnitude_def)

lemma magnitudes_nonneg [simp]: "0 \<le> sum_list (map magnitude xs)"
  by (rule sum_list_nonneg) auto

lemma foldl_jadd_whole:
  assumes "list_all wholeNumber xs"
    and "\<bar>rat_of_int s\<bar> + sum_list (map magnitude xs) \<le> 9007199254740992"
  shows "foldl jadd (Fin (of_int s)) xs = Fin (of_int s + sum_list (map amount xs))"
  using assms
proof (induction xs arbitrary: s)
  case Nil
  then show ?case by simp
next
  case (Cons x xs)
  from Cons.prems(1) obtain n where x: "x = Fin (of_int n)"
    using wholeNumberE[of x] by auto
  have m: "magnitude x = \<bar>rat_of_int n\<bar>" "amount x = of_int n"
    by (simp_all add: x magnitude_def amount_def)
  have t: "\<bar>rat_of_int (s + n)\<bar> \<le> \<bar>rat_of_int s\<bar> + \<bar>rat_of_int n\<bar>"
    by simp
  from Cons.prems(2) have b: "\<bar>rat_of_int s\<bar> + \<bar>rat_of_int n\<bar> + sum_list (map magnitude xs)
      \<le> 9007199254740992"
    by (simp add: m)
  have nn: "0 \<le> sum_list (map magnitude xs)" by simp
  from t b nn have "\<bar>rat_of_int (s + n)\<bar> \<le> 9007199254740992" by linarith
  then have "\<bar>rat_of_int (s + n)\<bar> \<le> rat_of_int 9007199254740992" by simp
  then have "\<bar>s + n\<bar> \<le> 9007199254740992"
    by (simp only: of_int_abs[symmetric] of_int_le_iff)
  then have "round64 (of_int (s + n)) = Fin (of_int (s + n))"
    using round64_int[of "s + n"] by simp
  then have step: "jadd (Fin (of_int s)) x = Fin (of_int (s + n))"
    by (simp add: x)
  from t b have "\<bar>rat_of_int (s + n)\<bar> + sum_list (map magnitude xs) \<le> 9007199254740992"
    by linarith
  with Cons.IH[of "s + n"] Cons.prems(1)
  have "foldl jadd (Fin (of_int (s + n))) xs = Fin (of_int (s + n) + sum_list (map amount xs))"
    by simp
  then show ?case
    by (simp add: step m)
qed

lemma numberSum_whole:
  assumes "wholeAmounts xs"
  shows "numberSum xs = Fin (sum_list (map amount xs))"
  using foldl_jadd_whole[of xs 0] assms by (simp add: wholeAmounts_def numberSum_def)





section \<open>The summary, field by field\<close>

lemma netPnlA_computeStatsA:
  "netPnlA (computeStatsA rows) = numberSum (map netPnl rows)"
  by (simp add: computeStatsA_def emptyStatsA_def Let_def reduceSum_numberSum numberSum_def)

lemma computeStatsB_cases:
  assumes "computeStatsB toISO rows = Inr s"
  shows "(rows = [] \<and> s = emptyStatsB) \<or>
         (rows \<noteq> [] \<and> (\<exists>byDate. forEachRow (byDateStep toISO) rows [] = Inr byDate \<and>
                             s = statsOfDays rows byDate))"
  using assms by (auto simp: computeStatsB_def split: if_splits sum.splits)

lemma netPnlB_statsOfDays: "netPnlB (statsOfDays rows byDate) = numberSum (map netPnl rows)"
  by (simp add: statsOfDays_def Let_def reduceSum_numberSum)

section \<open>Objects used as maps: what the grouping loops build\<close>

lemma createAndPush_Some:
  "map_of obj k = Some b \<Longrightarrow> createAndPush k r obj = Inr (AList.update k (b @ [r]) obj)"
  by (simp add: createAndPush_def)

lemma createAndPush_None:
  "map_of obj k = None \<Longrightarrow> k \<notin> set objectPrototypeKeys \<Longrightarrow>
   createAndPush k r obj = Inr (obj @ [(k, [r])])"
  by (simp add: createAndPush_def)

lemma createAndPush_inherited:
  "map_of obj k = None \<Longrightarrow> k \<in> set objectPrototypeKeys \<Longrightarrow>
   createAndPush k r obj = Inl TypeError"
  by (simp add: createAndPush_def)

lemma filed_empty: "filed key [] []"
  by (simp add: filed_def)

lemma filed_step:
  assumes "filed key seen obj" and "createAndPush (key r) r obj = Inr obj'"
  shows "filed key (seen @ [r]) obj'"
proof (cases "map_of obj (key r)")
  case None
  with assms(2) have obj': "obj' = obj @ [(key r, [r])]"
    by (auto simp: createAndPush_def split: if_splits)
  from None have "key r \<notin> fst ` set obj"
    by (simp add: map_of_eq_None_iff)
  moreover from None assms(1) have "filter (\<lambda>x. key x = key r) seen = []"
    by (auto simp: filed_def split: if_splits)
  ultimately show ?thesis
    using assms(1) by (auto simp: filed_def obj' map_add_def split: option.splits)
next
  case (Some b)
  with assms(2) have obj': "obj' = AList.update (key r) (b @ [r]) obj"
    by (simp add: createAndPush_def)
  from Some assms(1) have b: "b = filter (\<lambda>x. key x = key r) seen"
    by (auto simp: filed_def split: if_splits)
  show ?thesis
    using assms(1) b by (auto simp: filed_def obj' update_conv' distinct_update)
qed

lemma filed_loop:
  assumes "filed key seen obj"
    and "forEachRow (\<lambda>r. createAndPush (key r) r) rows obj = Inr obj'"
  shows "filed key (seen @ rows) obj'"
  using assms
proof (induction rows arbitrary: seen obj)
  case Nil
  then show ?case by simp
next
  case (Cons r rows)
  from Cons.prems(2) obtain mid where
    mid: "createAndPush (key r) r obj = Inr mid"
    and rest: "forEachRow (\<lambda>r. createAndPush (key r) r) rows mid = Inr obj'"
    by (auto split: sum.splits)
  from filed_step[OF Cons.prems(1) mid] have "filed key (seen @ [r]) mid" .
  from Cons.IH[OF this rest] show ?case by simp
qed

lemma filed_bucketAt: "filed key seen obj \<Longrightarrow> bucketAt obj k = filter (\<lambda>r. key r = k) seen"
  by (simp add: filed_def bucketAt_def)

lemma filed_keys: "filed key seen obj \<Longrightarrow> set (map fst obj) = key ` set seen"
proof -
  assume f: "filed key seen obj"
  have "k \<in> fst ` set obj \<longleftrightarrow> k \<in> key ` set seen" for k
  proof -
    have "k \<in> fst ` set obj \<longleftrightarrow> map_of obj k \<noteq> None"
      by (simp add: map_of_eq_None_iff)
    also have "\<dots> \<longleftrightarrow> filter (\<lambda>r. key r = k) seen \<noteq> []"
      using f by (simp add: filed_def)
    also have "\<dots> \<longleftrightarrow> k \<in> key ` set seen"
      by (auto simp: filter_empty_conv)
    finally show ?thesis .
  qed
  then show ?thesis by auto
qed

text \<open>
  A loop that returns has met no key that names an inherited property, and a loop that
  meets none returns.
\<close>

lemma filed_no_inherited_own:
  "forEachRow (\<lambda>r. createAndPush (key r) r) rows obj = Inr obj' \<Longrightarrow>
   set (map fst obj) \<inter> set objectPrototypeKeys = {} \<Longrightarrow>
   (\<forall>r \<in> set rows. key r \<notin> set objectPrototypeKeys)"
proof (induction rows arbitrary: obj)
  case Nil
  then show ?case by simp
next
  case (Cons r rows)
  from Cons.prems(1) obtain mid where
    mid: "createAndPush (key r) r obj = Inr mid"
    and rest: "forEachRow (\<lambda>r. createAndPush (key r) r) rows mid = Inr obj'"
    by (auto split: sum.splits)
  have notin: "key r \<notin> set objectPrototypeKeys"
  proof (cases "map_of obj (key r)")
    case None
    with mid show ?thesis by (auto simp: createAndPush_def split: if_splits)
  next
    case (Some b)
    then have "key r \<in> fst ` set obj" by (metis map_of_eq_None_iff option.distinct(1))
    with Cons.prems(2) show ?thesis by auto
  qed
  have "fst ` set mid = insert (key r) (fst ` set obj)"
  proof (cases "map_of obj (key r)")
    case None
    with mid notin show ?thesis by (auto simp: createAndPush_def)
  next
    case (Some b)
    with mid have "mid = AList.update (key r) (b @ [r]) obj"
      by (simp add: createAndPush_def)
    then show ?thesis by (simp add: dom_update)
  qed
  with notin Cons.prems(2) have "set (map fst mid) \<inter> set objectPrototypeKeys = {}"
    by auto
  from Cons.IH[OF rest this] notin show ?case by simp
qed

lemma forEach_createAndPush_returns:
  "\<forall>r \<in> set rows. key r \<notin> set objectPrototypeKeys \<Longrightarrow>
   \<exists>obj'. forEachRow (\<lambda>r. createAndPush (key r) r) rows obj = Inr obj'"
proof (induction rows arbitrary: obj)
  case Nil
  then show ?case by simp
next
  case (Cons r rows)
  then have "\<exists>mid. createAndPush (key r) r obj = Inr mid"
    by (cases "map_of obj (key r)") (simp_all add: createAndPush_def)
  then obtain mid where mid: "createAndPush (key r) r obj = Inr mid" ..
  from Cons.IH[of mid] Cons.prems obtain obj' where
    "forEachRow (\<lambda>r. createAndPush (key r) r) rows mid = Inr obj'" by auto
  with mid show ?case by simp
qed

text \<open>\<^verbatim>\<open>Object.keys\<close> lists the own keys, each once.\<close>

lemma mset_objectKeys: "mset (objectKeys obj) = mset (map fst obj)"
  by (simp add: objectKeys_def)

lemma distinct_objectKeys: "distinct (map fst obj) \<Longrightarrow> distinct (objectKeys obj)"
  by (metis mset_objectKeys mset_eq_imp_distinct_iff)

lemma set_objectKeys: "set (objectKeys obj) = fst ` set obj"
  by (metis mset_objectKeys set_mset_mset set_map)

lemma perm_length_filter:
  "mset xs = mset ys \<Longrightarrow> length (filter P xs) = length (filter P ys)"
  by (metis mset_filter size_mset)

section \<open>When variant B returns a summary\<close>

text \<open>
  The loop that builds \<^verbatim>\<open>byDate\<close> skips the records with an empty key and files
  the others as the grouping by symbol does. It returns when no key names an inherited
  property, and throws otherwise.
\<close>

lemma byDate_loop_filter:
  "forEachRow (byDateStep toISO) rows obj =
   forEachRow (\<lambda>r. createAndPush (dateKey toISO r) r)
     (filter (\<lambda>r. dateKey toISO r \<noteq> []) rows) obj"
  by (induction rows arbitrary: obj) (auto simp: byDateStep_def split: sum.splits)

lemma computeStatsB_returns:
  assumes "ownDateKeys toISO rows"
  shows "\<exists>s. computeStatsB toISO rows = Inr s"
proof -
  from assms have "\<forall>r \<in> set (filter (\<lambda>r. dateKey toISO r \<noteq> []) rows).
                     dateKey toISO r \<notin> set objectPrototypeKeys"
    by (simp add: ownDateKeys_def list_all_iff)
  from forEach_createAndPush_returns[OF this, of "[]"]
  show ?thesis
    by (auto simp: computeStatsB_def byDate_loop_filter)
qed

lemma computeStatsB_throws:
  assumes "\<not> ownDateKeys toISO rows"
  shows "computeStatsB toISO rows = Inl TypeError"
proof (cases "computeStatsB toISO rows")
  case (Inl e)
  then show ?thesis by (cases e) simp
next
  case (Inr s)
  from computeStatsB_cases[OF Inr] have "ownDateKeys toISO rows"
  proof (elim disjE conjE exE)
    assume "rows = []"
    then show ?thesis by (simp add: ownDateKeys_def)
  next
    fix byDate
    assume "forEachRow (byDateStep toISO) rows [] = Inr byDate"
    then have "forEachRow (\<lambda>r. createAndPush (dateKey toISO r) r)
                 (filter (\<lambda>r. dateKey toISO r \<noteq> []) rows) [] = Inr byDate"
      by (simp add: byDate_loop_filter)
    from filed_no_inherited_own[OF this]
    have "\<forall>r \<in> set (filter (\<lambda>r. dateKey toISO r \<noteq> []) rows).
            dateKey toISO r \<notin> set objectPrototypeKeys"
      by simp
    then have "dateKey toISO r \<notin> set objectPrototypeKeys" if "r \<in> set rows" for r
      using that by (cases "dateKey toISO r = []") (auto simp: objectPrototypeKeys_def)
    then show ?thesis by (simp add: ownDateKeys_def list_all_iff)
  qed
  with assms show ?thesis by simp
qed

lemma sampleTable_ownDateKeys:
  "ownDateKeys sampleISO (parseTableB sampleDateParse sampleTza sampleTable)"
  by (simp add: ownDateKeys_def sampleTable_B dateKey_def objectPrototypeKeys_def)

section \<open>Net P&L of the summary\<close>

text \<open>
  Claim C4, amended. In both variants the summary's net P&L is the sum of the net P&L of
  all the records as binary64 addition accumulates it, from 0 and in list order: for
  variant A on every record list, for variant B on every record list that files no
  record under an inherited name, where it returns a summary. When the net P&L values
  are whole numbers whose magnitudes total at most \<open>2^53\<close>, this is exactly the sum of
  the values. It is not the exact sum in general, see \<open>netPnl_sum_rounds\<close>.
\<close>

theorem netPnl_is_sum:
  "netPnlA (computeStatsA rowsA) = numberSum (map netPnl rowsA) \<and>
   (wholeAmounts (map netPnl rowsA) \<longrightarrow>
      netPnlA (computeStatsA rowsA) = Fin (sum_list (map amount (map netPnl rowsA)))) \<and>
   (ownDateKeys toISO rowsB \<longrightarrow>
      (\<exists>s. computeStatsB toISO rowsB = Inr s \<and>
           netPnlB s = numberSum (map netPnl rowsB) \<and>
           (wholeAmounts (map netPnl rowsB) \<longrightarrow>
              netPnlB s = Fin (sum_list (map amount (map netPnl rowsB))))))"
proof (intro conjI impI)
  show "netPnlA (computeStatsA rowsA) = numberSum (map netPnl rowsA)"
    by (rule netPnlA_computeStatsA)
next
  assume "wholeAmounts (map netPnl rowsA)"
  then show "netPnlA (computeStatsA rowsA) = Fin (sum_list (map amount (map netPnl rowsA)))"
    by (simp only: netPnlA_computeStatsA numberSum_whole)
next
  assume "ownDateKeys toISO rowsB"
  from computeStatsB_returns[OF this] obtain s where
    s: "computeStatsB toISO rowsB = Inr s" ..
  from computeStatsB_cases[OF s] have n: "netPnlB s = numberSum (map netPnl rowsB)"
    by (auto simp: emptyStatsB_def netPnlB_statsOfDays numberSum_def)
  have "netPnlB s = Fin (sum_list (map amount (map netPnl rowsB)))"
    if "wholeAmounts (map netPnl rowsB)"
    using that by (simp only: n numberSum_whole)
  with s n show "\<exists>s. computeStatsB toISO rowsB = Inr s \<and>
           netPnlB s = numberSum (map netPnl rowsB) \<and>
           (wholeAmounts (map netPnl rowsB) \<longrightarrow>
              netPnlB s = Fin (sum_list (map amount (map netPnl rowsB))))"
    by blast
qed

lemma sampleTable_whole:
  "wholeAmounts (map netPnl (parseTableA sampleDateParse sampleTza sampleTable))"
  "wholeAmounts (map netPnl (parseTableB sampleDateParse sampleTza sampleTable))"
  by (simp_all add: sampleTable_A sampleTable_B wholeAmounts_def wholeNumber_def
      magnitude_def amount_def)

theorem netPnl_is_sum_witness:
  "wholeAmounts (map netPnl (parseTableA sampleDateParse sampleTza sampleTable)) \<and>
   netPnlA (computeStatsA (parseTableA sampleDateParse sampleTza sampleTable)) = Fin 30 \<and>
   ownDateKeys sampleISO (parseTableB sampleDateParse sampleTza sampleTable) \<and>
   wholeAmounts (map netPnl (parseTableB sampleDateParse sampleTza sampleTable)) \<and>
   (\<exists>s. computeStatsB sampleISO (parseTableB sampleDateParse sampleTza sampleTable) = Inr s \<and>
        netPnlB s = Fin 30)"
proof -
  note t = netPnl_is_sum[of "parseTableA sampleDateParse sampleTza sampleTable" sampleISO
      "parseTableB sampleDateParse sampleTza sampleTable"]
  from t sampleTable_whole(1)
  have "netPnlA (computeStatsA (parseTableA sampleDateParse sampleTza sampleTable)) =
        Fin (sum_list (map amount (map netPnl (parseTableA sampleDateParse sampleTza sampleTable))))"
    by blast
  then have a: "netPnlA (computeStatsA (parseTableA sampleDateParse sampleTza sampleTable)) = Fin 30"
    by (simp add: sampleTable_A amount_def)
  from t sampleTable_ownDateKeys sampleTable_whole(2) obtain s where
    s: "computeStatsB sampleISO (parseTableB sampleDateParse sampleTza sampleTable) = Inr s"
    and n: "netPnlB s =
        Fin (sum_list (map amount (map netPnl (parseTableB sampleDateParse sampleTza sampleTable))))"
    by blast
  from n have "netPnlB s = Fin 30"
    by (simp add: sampleTable_B amount_def)
  with a s sampleTable_ownDateKeys sampleTable_whole show ?thesis by blast
qed

text \<open>
  The claim as stated fails. Net P&L cells of \<open>10^16\<close>, 1 and 1 dollars give a summary
  net P&L of \<open>10^16\<close>: each addition of 1 is rounded away, although the exact sum
  \<open>10^16 + 2\<close> is a double. Cells of 10 and 20 cents give 0.30000000000000004, which is
  not the double of 0.3 (and the exact sum of the two doubles is no double at all).
\<close>

lemma sampleLarge_A:
  "map netPnl (parseTableA sampleDateParse sampleTza sampleLarge) =
     [Fin 10000000000000000, Fin 1, Fin 1]"
  by (simp add: parseTableA_def sampleLarge_def table_defs)

lemma sampleCents_A:
  "map netPnl (parseTableA sampleDateParse sampleTza sampleCents) =
     [Fin (3602879701896397 / 36028797018963968), Fin (3602879701896397 / 18014398509481984)]"
  by (simp add: parseTableA_def sampleCents_def table_defs)

lemma round64_tenth_double:
  "round64 (3602879701896397 / 36028797018963968) = Fin (3602879701896397 / 36028797018963968)"
  using round64_grid[of 3602879701896397 "- 55"] by (simp add: power_int_minus)

lemma round64_1e16_2: "round64 10000000000000002 = Fin 10000000000000002"
  using round64_grid[of 5000000000000001 1] by simp

theorem netPnl_sum_rounds:
  "map netPnl (parseTableA sampleDateParse sampleTza sampleLarge) =
     [Fin 10000000000000000, Fin 1, Fin 1] \<and>
   netPnlA (computeStatsA (parseTableA sampleDateParse sampleTza sampleLarge)) =
     Fin 10000000000000000 \<and>
   sum_list (map amount (map netPnl (parseTableA sampleDateParse sampleTza sampleLarge))) =
     10000000000000002 \<and>
   round64 10000000000000002 = Fin 10000000000000002 \<and>
   map netPnl (parseTableA sampleDateParse sampleTza sampleCents) =
     [round64 (1 / 10), round64 (1 / 5)] \<and>
   netPnlA (computeStatsA (parseTableA sampleDateParse sampleTza sampleCents)) =
     Fin (1351079888211149 / 4503599627370496) \<and>
   round64 (3 / 10) = Fin (5404319552844595 / 18014398509481984)"
  by (simp add: netPnlA_computeStatsA sampleLarge_A sampleCents_A numberSum_def amount_def
      round64_1e16_2 round64_three_tenths round64_tenth_double)

section \<open>The days of variant B\<close>


lemma set_firstOccurrences [simp]: "set (firstOccurrences xs) = set xs"
  by (simp add: firstOccurrences_def)




















section \<open>Profit factor\<close>













lemma round64_5_2 [simp]: "round64 (5 / 2) = Fin (5 / 2)"
  using round64_grid[of 5 "- 1"] by (simp add: power_int_minus)







section \<open>Row normalizer: which rows are kept\<close>

lemma kept_recordA_iff:
  "kept (recordA dateParse tza tr) \<longleftrightarrow> rowSymbol tr \<noteq> [] \<and> getCellText tr ''Date'' \<noteq> []"
  by (simp add: kept_def recordA_def Let_def)

lemma kept_recordB_iff:
  "kept (recordB dateParse tza tr) \<longleftrightarrow> rowSymbol tr \<noteq> [] \<and> getCellText tr ''Date'' \<noteq> []"
  by (simp add: kept_def recordB_def Let_def)

text \<open>
  Claim C9. In both variants the normalizer goes through the rows in order and keeps the
  record of a row if and only if its symbol and its \<^verbatim>\<open>dateStr\<close> are both non-empty;
  the record of any other row is dropped. So the kept records are a subsequence of the
  records of the rows, in source order, and each has a symbol and a \<^verbatim>\<open>dateStr\<close>.
\<close>

theorem normalizer_keeps_iff_symbol_and_date:
  "parseTableA dateParse tza [] = [] \<and>
   parseTableA dateParse tza (tr # trs) =
     (if symbol (recordA dateParse tza tr) \<noteq> [] \<and> dateStr (recordA dateParse tza tr) \<noteq> []
      then recordA dateParse tza tr # parseTableA dateParse tza trs
      else parseTableA dateParse tza trs) \<and>
   parseTableB dateParse tza [] = [] \<and>
   parseTableB dateParse tza (tr # trs) =
     (if symbol (recordB dateParse tza tr) \<noteq> [] \<and> dateStr (recordB dateParse tza tr) \<noteq> []
      then recordB dateParse tza tr # parseTableB dateParse tza trs
      else parseTableB dateParse tza trs) \<and>
   subseq (parseTableA dateParse tza trs) (map (recordA dateParse tza) trs) \<and>
   subseq (parseTableB dateParse tza trs) (map (recordB dateParse tza) trs) \<and>
   list_all (\<lambda>r. symbol r \<noteq> [] \<and> dateStr r \<noteq> []) (parseTableA dateParse tza trs) \<and>
   list_all (\<lambda>r. symbol r \<noteq> [] \<and> dateStr r \<noteq> []) (parseTableB dateParse tza trs)"
  by (simp add: parseTableA_def parseTableB_def kept_def list_all_iff)

theorem normalizer_keeps_iff_symbol_and_date_witness:
  "parseTableA sampleDateParse sampleTza [sampleRow ''2024-01-03'' '' '' ''$1.00''] = [] \<and>
   parseTableB sampleDateParse sampleTza [sampleRow [] ''AAA'' ''$1.00''] = [] \<and>
   map symbol (parseTableA sampleDateParse sampleTza [sampleRow ''soon'' ''AAA'' ''n/a'']) =
     [''AAA'']"
  using normalizer_keeps_iff_symbol_and_date[of sampleDateParse sampleTza
      "sampleRow ''2024-01-03'' '' '' ''$1.00''" "[]"]
    normalizer_keeps_iff_symbol_and_date[of sampleDateParse sampleTza
      "sampleRow [] ''AAA'' ''$1.00''" "[]"]
    normalizer_keeps_iff_symbol_and_date[of sampleDateParse sampleTza
      "sampleRow ''soon'' ''AAA'' ''n/a''" "[]"]
  by (simp add: sampleRow_def recordA_def recordB_def rowSymbol_def getCellText_def trim_def
      isWhiteSpace_def Let_def)

section \<open>Average win percentage (variant A)\<close>



lemma amount_Fin [simp]: "amount (Fin q) = q"
  by (simp add: amount_def)



section \<open>Grouping by weekday\<close>

lemma map_of_tabulate:
  "map_of (map (\<lambda>d. (d, f d)) ds) k = (if k \<in> set ds then Some (f k) else None)"
  by (induction ds) auto

lemma update_tabulate:
  "distinct ds \<Longrightarrow> k \<in> set ds \<Longrightarrow>
   AList.update k v (map (\<lambda>d. (d, f d)) ds) = map (\<lambda>d. (d, if d = k then v else f d)) ds"
  by (induction ds) auto

lemma pushIfPresent_tabulate:
  assumes "distinct ds" and "k \<in> set ds" and "k \<noteq> []"
  shows "pushIfPresent k r (map (\<lambda>d. (d, f d)) ds) =
         Inr (map (\<lambda>d. (d, if d = k then f d @ [r] else f d)) ds)"
  using assms by (simp add: pushIfPresent_def map_of_tabulate update_tabulate)

lemma pushIfPresent_empty: "pushIfPresent [] r obj = Inr obj"
  by (simp add: pushIfPresent_def)

lemma forEach_pushIfPresent:
  assumes "distinct ds" and "[] \<notin> set ds"
    and "\<forall>r \<in> set rows. name r = [] \<or> name r \<in> set ds"
  shows "forEachRow (\<lambda>r. pushIfPresent (name r) r) rows (map (\<lambda>d. (d, f d)) ds) =
         Inr (map (\<lambda>d. (d, f d @ filter (\<lambda>r. name r = d) rows)) ds)"
  using assms(3)
proof (induction rows arbitrary: f)
  case Nil
  then show ?case by simp
next
  case (Cons r rows)
  show ?case
  proof (cases "name r = []")
    case True
    with assms(2) have "filter (\<lambda>x. name x = d) (r # rows) = filter (\<lambda>x. name x = d) rows"
      if "d \<in> set ds" for d
      using that by auto
    then have "map (\<lambda>d. (d, f d @ filter (\<lambda>x. name x = d) (r # rows))) ds =
               map (\<lambda>d. (d, f d @ filter (\<lambda>x. name x = d) rows)) ds"
      by (auto intro: map_cong)
    with True Cons show ?thesis
      by (simp add: pushIfPresent_empty)
  next
    case False
    with Cons.prems have k: "name r \<in> set ds" by auto
    have "map (\<lambda>d. (d, (if d = name r then f d @ [r] else f d) @ filter (\<lambda>x. name x = d) rows)) ds =
          map (\<lambda>d. (d, f d @ filter (\<lambda>x. name x = d) (r # rows))) ds"
      by (auto intro: map_cong)
    with Cons.IH[of "\<lambda>d. if d = name r then f d @ [r] else f d"] Cons.prems
    show ?thesis
      by (simp add: pushIfPresent_tabulate[OF assms(1) k False])
  qed
qed

lemma mset_concat_filters:
  "distinct ds \<Longrightarrow>
   mset (concat (map (\<lambda>d. filter (\<lambda>r. name r = d) rows) ds)) =
   mset (filter (\<lambda>r. name r \<in> set ds) rows)"
proof (induction ds)
  case Nil
  then show ?case by simp
next
  case (Cons d ds)
  have "mset (filter (\<lambda>r. name r = d) rows) + mset (filter (\<lambda>r. name r \<in> set ds) rows) =
        mset (filter (\<lambda>r. name r = d \<or> name r \<in> set ds) rows)"
    using Cons.prems by (induction rows) auto
  with Cons show ?case by simp
qed

lemma getDay_less_7: "getDay tza t < 7"
proof -
  have "((t + tza t) div 86400000 + 4) mod 7 < 7"
    by simp
  then show ?thesis
    unfolding getDay_def by linarith
qed

lemma DAYS_facts: "distinct DAYS" "[] \<notin> set DAYS" "length DAYS = 7"
  by (simp_all add: DAYS_def)

lemma rowDayName_cases:
  "rowDayName tza None = []" "rowDayName tza (Some t) \<in> set DAYS"
  using getDay_less_7[of tza t] by (simp_all add: rowDayName_def DAYS_facts)

lemma derivedDay_name:
  assumes "derivedDay tza r"
  shows "dayName r = [] \<or> dayName r \<in> set DAYS"
    and "date r \<noteq> None \<longleftrightarrow> dayName r \<in> set DAYS"
proof -
  show "dayName r = [] \<or> dayName r \<in> set DAYS"
  proof (cases "date r")
    case None
    with assms show ?thesis by (simp add: derivedDay_def rowDayName_cases(1))
  next
    case (Some t)
    with assms show ?thesis by (simp add: derivedDay_def rowDayName_cases(2))
  qed
  show "date r \<noteq> None \<longleftrightarrow> dayName r \<in> set DAYS"
  proof (cases "date r")
    case None
    with assms DAYS_facts(2) show ?thesis by (simp add: derivedDay_def rowDayName_cases(1))
  next
    case (Some t)
    with assms show ?thesis by (simp add: derivedDay_def rowDayName_cases(2))
  qed
qed

text \<open>Every record the normalizer builds has its weekday label derived from its date.\<close>

lemma derivedDay_recordA: "derivedDay tza (recordA dateParse tza tr)"
  by (simp add: derivedDay_def recordA_def Let_def)

lemma derivedDay_recordB: "derivedDay tza (recordB dateParse tza tr)"
  by (simp add: derivedDay_def recordB_def Let_def)

lemma parseTableA_derived: "list_all (derivedDay tza) (parseTableA dateParse tza trs)"
  unfolding parseTableA_def list_all_iff
  using derivedDay_recordA by fastforce

lemma parseTableB_derived: "list_all (derivedDay tza) (parseTableB dateParse tza trs)"
  unfolding parseTableB_def list_all_iff
  using derivedDay_recordB by fastforce

lemma bucketAt_tabulate:
  "bucketAt (map (\<lambda>d. (d, f d)) ds) k = (if k \<in> set ds then f k else [])"
  by (simp add: bucketAt_def map_of_tabulate)

text \<open>
  Claim C5. For every list of records whose weekday label is derived from the date (as
  in every record the normalizer builds, \<open>parseTableA_derived\<close> and
  \<open>parseTableB_derived\<close>), grouping by weekday returns exactly the seven weekday
  buckets, each holding the records with that label in encounter order. Every record
  with a parsed date is in exactly one bucket, a record with an empty label is in none,
  and the buckets together hold the records with a parsed date, each as often as the
  list does.
\<close>

theorem weekday_buckets_partition:
  assumes "list_all (derivedDay tza) rows"
  shows "\<exists>byDay. groupByDayOfWeek rows = Inr byDay \<and> map fst byDay = DAYS \<and>
           (\<forall>d \<in> set DAYS. bucketAt byDay d = filter (\<lambda>r. dayName r = d) rows) \<and>
           (\<forall>r \<in> set rows. date r \<noteq> None \<longrightarrow>
              (\<exists>!d. d \<in> set DAYS \<and> r \<in> set (bucketAt byDay d))) \<and>
           (\<forall>r \<in> set rows. dayName r = [] \<longrightarrow>
              (\<forall>d \<in> set DAYS. r \<notin> set (bucketAt byDay d))) \<and>
           mset (concat (map snd byDay)) = mset (filter (\<lambda>r. date r \<noteq> None) rows)"
proof -
  let ?byDay = "map (\<lambda>d. (d, filter (\<lambda>r. dayName r = d) rows)) DAYS"
  from assms have d: "derivedDay tza r" if "r \<in> set rows" for r
    using that by (simp add: list_all_iff)
  have names: "\<forall>r \<in> set rows. dayName r = [] \<or> dayName r \<in> set DAYS"
    using derivedDay_name(1)[OF d] by blast
  have g: "groupByDayOfWeek rows = Inr ?byDay"
    unfolding groupByDayOfWeek_def
    using forEach_pushIfPresent[OF DAYS_facts(1,2) names, of "\<lambda>d. []"] by simp
  have k: "map fst ?byDay = DAYS"
    by (simp add: comp_def)
  have b: "\<forall>d \<in> set DAYS. bucketAt ?byDay d = filter (\<lambda>r. dayName r = d) rows"
    by (simp add: bucketAt_tabulate)
  have one: "\<forall>r \<in> set rows. date r \<noteq> None \<longrightarrow>
              (\<exists>!d. d \<in> set DAYS \<and> r \<in> set (bucketAt ?byDay d))"
  proof (intro ballI impI)
    fix r assume r: "r \<in> set rows" and "date r \<noteq> None"
    then have n: "dayName r \<in> set DAYS"
      using derivedDay_name(2)[OF d[OF r]] by simp
    show "\<exists>!d. d \<in> set DAYS \<and> r \<in> set (bucketAt ?byDay d)"
    proof (rule ex1I[of _ "dayName r"])
      show "dayName r \<in> set DAYS \<and> r \<in> set (bucketAt ?byDay (dayName r))"
        using n r by (simp add: bucketAt_tabulate)
    next
      fix e assume "e \<in> set DAYS \<and> r \<in> set (bucketAt ?byDay e)"
      then show "e = dayName r" by (simp add: bucketAt_tabulate)
    qed
  qed
  have none: "\<forall>r \<in> set rows. dayName r = [] \<longrightarrow>
              (\<forall>d \<in> set DAYS. r \<notin> set (bucketAt ?byDay d))"
  proof (intro ballI impI)
    fix r e assume "r \<in> set rows" and "dayName r = []" and e: "e \<in> set DAYS"
    with DAYS_facts(2) have "dayName r \<noteq> e" by metis
    with e show "r \<notin> set (bucketAt ?byDay e)" by (simp add: bucketAt_tabulate)
  qed
  have all: "mset (concat (map snd ?byDay)) = mset (filter (\<lambda>r. date r \<noteq> None) rows)"
  proof -
    have "mset (concat (map snd ?byDay)) = mset (filter (\<lambda>r. dayName r \<in> set DAYS) rows)"
      using mset_concat_filters[OF DAYS_facts(1), of dayName rows] by (simp add: comp_def)
    also have "filter (\<lambda>r. dayName r \<in> set DAYS) rows = filter (\<lambda>r. date r \<noteq> None) rows"
    proof (rule filter_cong[OF refl])
      fix r assume "r \<in> set rows"
      from derivedDay_name(2)[OF d[OF this]]
      show "(dayName r \<in> set DAYS) = (date r \<noteq> None)" by blast
    qed
    finally show ?thesis .
  qed
  show ?thesis
    by (rule exI[of _ ?byDay]) (intro conjI g k b one none all)
qed

theorem weekday_buckets_partition_witness:
  "list_all (derivedDay sampleTza) (parseTableA sampleDateParse sampleTza sampleTable) \<and>
   (\<exists>byDay. groupByDayOfWeek (parseTableA sampleDateParse sampleTza sampleTable) = Inr byDay \<and>
      map fst byDay = [''Sun'', ''Mon'', ''Tue'', ''Wed'', ''Thu'', ''Fri'', ''Sat''] \<and>
      map dateStr (bucketAt byDay ''Tue'') = [''2024-01-02''] \<and>
      map dateStr (bucketAt byDay ''Wed'') = [''2024-01-03''] \<and>
      bucketAt byDay ''Sun'' = [] \<and>
      length (concat (map snd byDay)) = 2)"
proof -
  have w: "list_all (derivedDay sampleTza) (parseTableA sampleDateParse sampleTza sampleTable)"
    by (rule parseTableA_derived)
  from weekday_buckets_partition[OF w] obtain byDay where
    g: "groupByDayOfWeek (parseTableA sampleDateParse sampleTza sampleTable) = Inr byDay"
    and k: "map fst byDay = DAYS"
    and b: "\<forall>d \<in> set DAYS. bucketAt byDay d =
              filter (\<lambda>r. dayName r = d) (parseTableA sampleDateParse sampleTza sampleTable)"
    and m: "mset (concat (map snd byDay)) =
              mset (filter (\<lambda>r. date r \<noteq> None) (parseTableA sampleDateParse sampleTza sampleTable))"
    by (elim exE conjE) (rule that)
  from m have "length (concat (map snd byDay)) =
      length (filter (\<lambda>r. date r \<noteq> None) (parseTableA sampleDateParse sampleTza sampleTable))"
    by (rule mset_eq_length)
  with w g k b show ?thesis
    by (simp add: DAYS_def sampleTable_A)
qed

section \<open>Grouping by symbol\<close>

text \<open>
  For record lists in which no symbol is the name of a property inherited from
  \<^verbatim>\<open>Object.prototype\<close>, grouping by symbol returns one bucket per distinct symbol,
  each holding the records of that symbol in encounter order; the buckets together are
  the records of the list, and the symbols listed for the selector are the distinct
  symbols in lexicographic order.
\<close>

lemma filed_buckets:
  assumes "filed key seen obj"
  shows "map snd obj = map (\<lambda>k. filter (\<lambda>r. key r = k) seen) (map fst obj)"
proof -
  have "snd p = filter (\<lambda>r. key r = fst p) seen" if "p \<in> set obj" for p
  proof -
    from assms have "distinct (map fst obj)" by (simp add: filed_def)
    with that have "map_of obj (fst p) = Some (snd p)" by simp
    with assms show ?thesis
      by (simp add: filed_def split: if_splits)
  qed
  then show ?thesis by simp
qed

lemma groupBySymbol_buckets:
  assumes "\<forall>r \<in> set rows. symbol r \<notin> set objectPrototypeKeys"
  shows "\<exists>bySymbol. groupBySymbol rows = Inr bySymbol \<and>
           distinct (map fst bySymbol) \<and>
           set (map fst bySymbol) = symbol ` set rows \<and>
           (\<forall>k. bucketAt bySymbol k = filter (\<lambda>r. symbol r = k) rows) \<and>
           mset (concat (map snd bySymbol)) = mset rows \<and>
           sorted (symbols bySymbol) \<and> distinct (symbols bySymbol) \<and>
           set (symbols bySymbol) = symbol ` set rows"
proof -
  from forEach_createAndPush_returns[OF assms, of "[]"] obtain obj where
    obj: "groupBySymbol rows = Inr obj"
    by (auto simp: groupBySymbol_def)
  then have f: "filed symbol rows obj"
    using filed_loop[OF filed_empty, of symbol rows obj] by (simp add: groupBySymbol_def)
  have d: "distinct (map fst obj)"
    using f by (simp add: filed_def)
  have k: "set (map fst obj) = symbol ` set rows"
    by (rule filed_keys[OF f])
  have b: "\<forall>k. bucketAt obj k = filter (\<lambda>r. symbol r = k) rows"
    using filed_bucketAt[OF f] by simp
  have m: "mset (concat (map snd obj)) = mset rows"
  proof -
    have "mset (concat (map snd obj)) =
          mset (filter (\<lambda>r. symbol r \<in> set (map fst obj)) rows)"
      using mset_concat_filters[OF d, of symbol rows] by (simp add: filed_buckets[OF f])
    also have "filter (\<lambda>r. symbol r \<in> set (map fst obj)) rows = rows"
      unfolding k by simp
    finally show ?thesis .
  qed
  have s1: "sorted (symbols obj)"
    by (simp add: symbols_def)
  have s2: "distinct (symbols obj)"
    using d by (simp add: symbols_def distinct_objectKeys)
  have s3: "set (symbols obj) = symbol ` set rows"
    using k by (simp add: symbols_def set_objectKeys)
  show ?thesis
    by (rule exI[of _ obj]) (intro conjI obj d k b m s1 s2 s3)
qed

text \<open>
  Claim C6. Grouping by symbol does not return buckets for every record list: a row
  whose symbol cell reads \<^verbatim>\<open>constructor\<close> is kept by the normalizer, and on its
  record \<^verbatim>\<open>bySymbol[r.symbol]\<close> is the inherited \<^verbatim>\<open>Object\<close> function, so no bucket
  is created and \<^verbatim>\<open>bySymbol[r.symbol].push(r)\<close> throws a \<^verbatim>\<open>TypeError\<close>.
\<close>

theorem groupBySymbol_inherited_key_throws:
  "map symbol (parseTableA sampleDateParse sampleTza sampleInherited) = [''constructor''] \<and>
   groupBySymbol (parseTableA sampleDateParse sampleTza sampleInherited) = Inl TypeError \<and>
   groupBySymbol (parseTableB sampleDateParse sampleTza sampleInherited) = Inl TypeError"
  by (simp add: parseTableA_def parseTableB_def sampleInherited_def table_defs
      groupBySymbol_def createAndPush_def objectPrototypeKeys_def)

section \<open>Worst day and worst intraday low (variant B)\<close>












text \<open>
  Every record the normalizer of variant B keeps has a date label, a gross P&L of net
  P&L plus commission, and an intraday low that is a number: a missing or unreadable
  cell gives 0.
\<close>

lemma recordB_facts:
  "derivedGross (recordB dateParse tza tr)" "pnlLow (recordB dateParse tza tr) \<noteq> NaN"
  by (simp_all add: derivedGross_def recordB_def Let_def parseCurrencyB_not_NaN)

lemma parseTableB_labelled: "list_all labelled (parseTableB dateParse tza trs)"
  by (simp add: parseTableB_def list_all_iff kept_def labelled_def)

lemma parseTableB_derivedGross: "list_all derivedGross (parseTableB dateParse tza trs)"
  unfolding parseTableB_def list_all_iff
  using recordB_facts(1) by fastforce








section \<open>Empty input and finite summaries\<close>

text \<open>Rounding does not pass a power of two, so bounds by powers of two add and multiply.\<close>

lemma bounded_Fin [simp]: "bounded j (Fin r) \<longleftrightarrow> \<bar>r\<bar> \<le> 2 powi j"
  by (simp add: bounded_def)








































text \<open>
  The claim as stated, on every input, fails. The parser reads the cell text
  \<^verbatim>\<open>Infinity\<close> as the Number \<open>Infinity\<close>, and two rows with net P&L
  \<^verbatim>\<open>Infinity\<close> and \<^verbatim>\<open>-Infinity\<close> give variant A a gross profit of \<open>Infinity\<close>
  and a net P&L and a profit factor of NaN. Finite amounts overflow: the cell text
  \<^verbatim>\<open>1e309\<close> is read as \<open>Infinity\<close>, and two net P&L of \<open>10^308\<close> add up to a
  gross profit of \<open>Infinity\<close>. A row whose date cell reads \<^verbatim>\<open>constructor\<close> makes
  variant B throw a \<^verbatim>\<open>TypeError\<close> when it files the record under its date.
\<close>

lemma sampleInfinite_A:
  "map netPnl (parseTableA sampleDateParse sampleTza sampleInfinite) = [PInf, NInf]"
  by (simp add: parseTableA_def sampleInfinite_def table_defs)


lemma round64_1e308_double [simp]:
  "round64 100000000000000001097906362944045541740492309677311846336810682903157585404911491537163328978494688899061249669721172515611590283743140088328307009198146046031271664502933027185697489699588559043338384466165001178426897626212945177628091195786707458122783970171784415105291802893207873272974885715430223118336 = Fin 100000000000000001097906362944045541740492309677311846336810682903157585404911491537163328978494688899061249669721172515611590283743140088328307009198146046031271664502933027185697489699588559043338384466165001178426897626212945177628091195786707458122783970171784415105291802893207873272974885715430223118336"
  using round64_grid[of 5010420900022432 971]
  by simp

lemma round64_1e308_twice [simp]:
  "round64 200000000000000002195812725888091083480984619354623692673621365806315170809822983074326657956989377798122499339442345031223180567486280176656614018396292092062543329005866054371394979399177118086676768932330002356853795252425890355256182391573414916245567940343568830210583605786415746545949771430860446236672 = PInf"
  using round64_overflow[of "200000000000000002195812725888091083480984619354623692673621365806315170809822983074326657956989377798122499339442345031223180567486280176656614018396292092062543329005866054371394979399177118086676768932330002356853795252425890355256182391573414916245567940343568830210583605786415746545949771430860446236672"]
  by simp



end
